theory Spec2Isabelle
  imports Complex_Main "HOL-Library.AList"
begin

chapter \<open>The retrieval-augmented question answering pipeline of AskQss\<close>

text \<open>
  A shallow embedding of the backend services \<open>vector_store.py\<close>,
  \<open>document_processor.py\<close> and \<open>rag_service.py\<close>: every service object is a record,
  every method a function from the state before the call to the result (or the
  exception raised) and the state after it, every loop a recursive function.  The
  external collaborators (file parsers, embedding model, generative model, vector
  database, text splitter) are either answers of an environment or models of their
  contract.
\<close>

section \<open>Python values, dictionaries and errors\<close>

text \<open>
  A Python \<open>str\<close> is a \<open>string\<close>; one \<open>char\<close> stands for one character of the
  Python string, so \<open>length\<close> is Python's \<open>len\<close>.  A metadata value (\<open>Any\<close> in the
  source) is a string, an integer or \<open>None\<close>.
\<close>

datatype pyval = PStr string | PInt int | PNone

text \<open>
  A \<open>dict\<close> is an association list in insertion order.  \<open>d[k] = v\<close> is
  \<open>AList.update k v d\<close> (an existing key keeps its place, a new key goes to the end),
  \<open>d.get(k)\<close> is \<open>map_of d k\<close>, \<open>del d[k]\<close> is \<open>AList.delete k d\<close>.
\<close>

type_synonym ('k, 'v) dict = "('k \<times> 'v) list"

type_synonym metadata = "(string, pyval) dict"

text \<open>\<open>{**d, **e}\<close>: the entries of \<open>e\<close> are stored into \<open>d\<close> one after the other.\<close>

definition dict_merge :: "('k, 'v) dict \<Rightarrow> ('k, 'v) dict \<Rightarrow> ('k, 'v) dict" where
  "dict_merge d e = fold (\<lambda>(k, v). AList.update k v) e d"

text \<open>The exception classes the source raises or lets through; the string is \<open>str(e)\<close>.\<close>

datatype error =
    RuntimeError string
  | ValueError string
  | IndexError string
  | AttributeError string
  | Exception string

fun err_str :: "error \<Rightarrow> string" where
  "err_str (RuntimeError m) = m"
| "err_str (ValueError m) = m"
| "err_str (IndexError m) = m"
| "err_str (AttributeError m) = m"
| "err_str (Exception m) = m"

section \<open>The vector index (ChromaDB collection)\<close>

text \<open>
  Modelled from the spec: the persistent vector index is an external collaborator
  (the ChromaDB client library, not part of the repository).  The model follows the
  contract of section 4.2: a collection is a sequence of records; \<open>add\<close> fails the
  whole batch when the four sequences differ in length or an id collides; \<open>query\<close>
  returns the matching records by ascending distance, at most \<open>n_results\<close> of them,
  and an empty row for an empty collection; \<open>delete\<close> of an absent id is no error;
  \<open>get\<close> resolves the records matching a metadata filter.
\<close>

record chunk_record =
  rec_id :: string
  rec_document :: string
  rec_embedding :: "real list"
  rec_metadata :: metadata

record chroma_collection =
  coll_name :: string
  coll_metadata :: "(string, string) dict"
  coll_records :: "chunk_record list"

text \<open>The library calls that can fail because the storage or the service fails.\<close>

datatype chroma_op = OpOpen | OpGetOrCreate | OpAdd | OpQuery | OpGet | OpDelete | OpCount

text \<open>
  The environment of one call of the service: what the file system, the parsers, the
  embedding model, the generative model, the random generator, the clock and the
  storage answer.  A fault of the storage is \<open>chroma_fault op = Some e\<close>.
\<close>

record env =
  path_suffix :: "string \<Rightarrow> string"
  path_name :: "string \<Rightarrow> string"
  stat_size :: "string \<Rightarrow> error + int"
  read_pdf :: "string \<Rightarrow> error + string list"
  read_docx :: "string \<Rightarrow> error + string list"
  read_txt :: "string \<Rightarrow> error + string list"
  read_excel :: "string \<Rightarrow> error + string list"
  read_csv :: "string \<Rightarrow> error + string list"
  embed_documents :: "string list \<Rightarrow> error + real list list"
  embed_query :: "string \<Rightarrow> error + real list"
  llm_invoke :: "string \<Rightarrow> error + string"
  uuid4 :: string
  now_isoformat :: string
  persisted :: "string \<Rightarrow> string \<Rightarrow> chroma_collection option"
  chroma_fault :: "chroma_op \<Rightarrow> error option"
  distance_fn :: "real list \<Rightarrow> real list \<Rightarrow> real"

text \<open>A \<open>where\<close> filter \<open>{k: v, ...}\<close> matches a record whose metadata has every pair.\<close>

definition matches_where :: "metadata \<Rightarrow> chunk_record \<Rightarrow> bool" where
  "matches_where flt r = list_all (\<lambda>(k, v). map_of (rec_metadata r) k = Some v) flt"

definition get_or_create_collection ::
  "env \<Rightarrow> string \<Rightarrow> string \<Rightarrow> (string, string) dict \<Rightarrow> error + chroma_collection" where
  "get_or_create_collection e path name md =
     (case chroma_fault e OpGetOrCreate of
        Some err \<Rightarrow> Inl err
      | None \<Rightarrow>
          (case persisted e path name of
             Some c \<Rightarrow> Inr c
           | None \<Rightarrow> Inr \<lparr>coll_name = name, coll_metadata = md, coll_records = []\<rparr>))"

definition collection_add ::
  "env \<Rightarrow> chroma_collection \<Rightarrow> string list \<Rightarrow> real list list \<Rightarrow> metadata list \<Rightarrow> string list
     \<Rightarrow> error + chroma_collection" where
  "collection_add e c documents embeddings metadatas ids =
     (case chroma_fault e OpAdd of
        Some err \<Rightarrow> Inl err
      | None \<Rightarrow>
          if length documents \<noteq> length ids \<or> length embeddings \<noteq> length ids
             \<or> length metadatas \<noteq> length ids
          then Inl (ValueError ''Unequal lengths'')
          else if \<not> distinct ids \<or> (\<exists>i \<in> set ids. i \<in> set (map rec_id (coll_records c)))
          then Inl (ValueError ''Duplicate ids'')
          else Inr (c\<lparr>coll_records := coll_records c @
                 map (\<lambda>(i, d, v, m). \<lparr>rec_id = i, rec_document = d, rec_embedding = v,
                                       rec_metadata = m\<rparr>)
                     (zip ids (zip documents (zip embeddings metadatas)))\<rparr>))"

text \<open>
  The result of \<open>query\<close> for the single query embedding the service passes: one row
  per query embedding in each of the four fields.
\<close>

record query_result =
  qr_ids :: "string list list"
  qr_documents :: "string list list"
  qr_metadatas :: "metadata list list"
  qr_distances :: "real list list"

definition collection_query ::
  "env \<Rightarrow> chroma_collection \<Rightarrow> real list \<Rightarrow> int \<Rightarrow> metadata option \<Rightarrow> error + query_result" where
  "collection_query e c query_embedding n_results flt =
     (case chroma_fault e OpQuery of
        Some err \<Rightarrow> Inl err
      | None \<Rightarrow>
          if n_results \<le> 0 then Inl (ValueError ''Number of requested results must be positive'')
          else
            let cand = (case flt of None \<Rightarrow> coll_records c
                        | Some f \<Rightarrow> filter (matches_where f) (coll_records c));
                ranked = take (nat n_results)
                           (sort_key (\<lambda>r. distance_fn e query_embedding (rec_embedding r)) cand)
            in Inr \<lparr>qr_ids = [map rec_id ranked],
                    qr_documents = [map rec_document ranked],
                    qr_metadatas = [map rec_metadata ranked],
                    qr_distances =
                      [map (\<lambda>r. distance_fn e query_embedding (rec_embedding r)) ranked]\<rparr>)"

text \<open>\<open>get(where=...)\<close>; only the \<open>ids\<close> of the result are read by the service.\<close>

definition collection_get :: "env \<Rightarrow> chroma_collection \<Rightarrow> metadata option \<Rightarrow> error + string list" where
  "collection_get e c flt =
     (case chroma_fault e OpGet of
        Some err \<Rightarrow> Inl err
      | None \<Rightarrow>
          Inr (map rec_id (case flt of None \<Rightarrow> coll_records c
                           | Some f \<Rightarrow> filter (matches_where f) (coll_records c))))"

definition collection_delete :: "env \<Rightarrow> chroma_collection \<Rightarrow> string list \<Rightarrow> error + chroma_collection" where
  "collection_delete e c ids =
     (case chroma_fault e OpDelete of
        Some err \<Rightarrow> Inl err
      | None \<Rightarrow> Inr (c\<lparr>coll_records := filter (\<lambda>r. rec_id r \<notin> set ids) (coll_records c)\<rparr>))"

definition collection_count :: "env \<Rightarrow> chroma_collection \<Rightarrow> error + int" where
  "collection_count e c =
     (case chroma_fault e OpCount of
        Some err \<Rightarrow> Inl err
      | None \<Rightarrow> Inr (int (length (coll_records c))))"

section \<open>vector\_store.py: VectorStoreService\<close>

text \<open>
  The service object: \<open>client\<close> is the directory the persistent client was opened on,
  \<open>collection\<close> the collection object.  An operation returns its result, or the
  exception it raises, together with the service afterwards.
\<close>

record vector_store_service =
  vs_client :: "string option"
  vs_collection :: "chroma_collection option"
  vs_initialized :: bool

definition vector_store_init :: vector_store_service where
  "vector_store_init = \<lparr>vs_client = None, vs_collection = None, vs_initialized = False\<rparr>"

definition not_initialized :: error where
  "not_initialized = RuntimeError ''Vector store not initialized''"

definition vs_initialize ::
  "env \<Rightarrow> vector_store_service \<Rightarrow> string \<Rightarrow> string \<Rightarrow> (error + unit) \<times> vector_store_service" where
  "vs_initialize e vs persist_directory collection_name =
     (if vs_initialized vs then (Inr (), vs)
      else
        (case chroma_fault e OpOpen of
           Some err \<Rightarrow> (Inl err, vs)
         | None \<Rightarrow>
             let vs1 = vs\<lparr>vs_client := Some persist_directory\<rparr> in
             (case get_or_create_collection e persist_directory collection_name
                     [(''hnsw:space'', ''cosine'')] of
                Inl err \<Rightarrow> (Inl err, vs1)
              | Inr c \<Rightarrow> (Inr (), vs1\<lparr>vs_collection := Some c, vs_initialized := True\<rparr>))))"

text \<open>
  Every operation starts with the guard \<open>if not self.initialized or not self.collection\<close>:
  a collection object is true, \<open>None\<close> is false.  Behind the guard the collection is
  \<open>the (vs_collection vs)\<close>.
\<close>

definition add_documents ::
  "env \<Rightarrow> vector_store_service \<Rightarrow> string list \<Rightarrow> real list list \<Rightarrow> metadata list \<Rightarrow> string list
     \<Rightarrow> (error + unit) \<times> vector_store_service" where
  "add_documents e vs documents embeddings metadatas ids =
     (if \<not> vs_initialized vs \<or> vs_collection vs = None then (Inl not_initialized, vs)
      else
        (let c = the (vs_collection vs) in
            (case collection_add e c documents embeddings metadatas ids of
               Inl err \<Rightarrow> (Inl err, vs)
             | Inr c' \<Rightarrow> (Inr (), vs\<lparr>vs_collection := Some c'\<rparr>))))"

record search_result =
  sr_document :: string
  sr_metadata :: metadata
  sr_distance :: real
  sr_id :: "string option"

text \<open>
  The loop \<open>for i in range(len(results['documents'][0]))\<close>; an index beyond a row of
  the other fields raises \<open>IndexError\<close>.
\<close>

definition format_results :: "query_result \<Rightarrow> error + search_result list" where
  "format_results r =
     (case qr_documents r of
        [] \<Rightarrow> Inr []
      | docs # _ \<Rightarrow>
          if length docs > 0 then
            (case (qr_metadatas r, qr_distances r, qr_ids r) of
               (mds # _, ds # _, is # _) \<Rightarrow>
                 if length docs \<le> length mds \<and> length docs \<le> length ds
                    \<and> length docs \<le> length is
                 then Inr (map (\<lambda>i. \<lparr>sr_document = docs ! i, sr_metadata = mds ! i,
                                      sr_distance = ds ! i, sr_id = Some (is ! i)\<rparr>)
                               [0 ..< length docs])
                 else Inl (IndexError ''list index out of range'')
             | _ \<Rightarrow> Inl (IndexError ''list index out of range''))
          else Inr [])"

definition similarity_search ::
  "env \<Rightarrow> vector_store_service \<Rightarrow> real list \<Rightarrow> int \<Rightarrow> metadata option
     \<Rightarrow> (error + search_result list) \<times> vector_store_service" where
  "similarity_search e vs query_embedding top_k filter_dict =
     (if \<not> vs_initialized vs \<or> vs_collection vs = None then (Inl not_initialized, vs)
      else
        (let c = the (vs_collection vs) in
            (case collection_query e c query_embedding top_k filter_dict of
               Inl err \<Rightarrow> (Inl err, vs)
             | Inr results \<Rightarrow> (format_results results, vs))))"

definition delete_documents ::
  "env \<Rightarrow> vector_store_service \<Rightarrow> string list \<Rightarrow> (error + unit) \<times> vector_store_service" where
  "delete_documents e vs document_ids =
     (if \<not> vs_initialized vs \<or> vs_collection vs = None then (Inl not_initialized, vs)
      else
        (let c = the (vs_collection vs) in
            (case collection_delete e c document_ids of
               Inl err \<Rightarrow> (Inl (Exception (''Error deleting documents: '' @ err_str err)), vs)
             | Inr c' \<Rightarrow> (Inr (), vs\<lparr>vs_collection := Some c'\<rparr>))))"

record collection_info =
  ci_name :: string
  ci_count :: int
  ci_metadata :: "(string, string) dict"

definition get_collection_info ::
  "env \<Rightarrow> vector_store_service \<Rightarrow> (error + collection_info) \<times> vector_store_service" where
  "get_collection_info e vs =
     (if \<not> vs_initialized vs \<or> vs_collection vs = None then (Inl not_initialized, vs)
      else
        (let c = the (vs_collection vs) in
            (case collection_count e c of
               Inl err \<Rightarrow> (Inl err, vs)
             | Inr n \<Rightarrow> (Inr \<lparr>ci_name = coll_name c, ci_count = n,
                              ci_metadata = coll_metadata c\<rparr>, vs))))"

definition clear_collection ::
  "env \<Rightarrow> vector_store_service \<Rightarrow> (error + unit) \<times> vector_store_service" where
  "clear_collection e vs =
     (if \<not> vs_initialized vs \<or> vs_collection vs = None then (Inl not_initialized, vs)
      else
        (let c = the (vs_collection vs) in
            (case collection_get e c None of
               Inl err \<Rightarrow> (Inl err, vs)
             | Inr ids \<Rightarrow>
                 if length ids > 0 then
                   (case collection_delete e c ids of
                      Inl err \<Rightarrow> (Inl err, vs)
                    | Inr c' \<Rightarrow> (Inr (), vs\<lparr>vs_collection := Some c'\<rparr>))
                 else (Inr (), vs))))"

definition get_all_document_ids ::
  "env \<Rightarrow> vector_store_service \<Rightarrow> (error + string list) \<times> vector_store_service" where
  "get_all_document_ids e vs =
     (if \<not> vs_initialized vs \<or> vs_collection vs = None then (Inl not_initialized, vs)
      else
        (let c = the (vs_collection vs) in (collection_get e c None, vs)))"

definition get_documents_by_source ::
  "env \<Rightarrow> vector_store_service \<Rightarrow> string \<Rightarrow> (error + string list) \<times> vector_store_service" where
  "get_documents_by_source e vs source_filename =
     (if \<not> vs_initialized vs \<or> vs_collection vs = None then (Inl not_initialized, vs)
      else
        (let c = the (vs_collection vs)
         in (collection_get e c (Some [(''source'', PStr source_filename)]), vs)))"

section \<open>The text splitter (RecursiveCharacterTextSplitter)\<close>

text \<open>
  Modelled from the spec: the splitter is an external collaborator (the LangChain
  library, not part of the repository).  The model follows section 4.1 (split on a
  priority-ordered list of separators, recurse with the next separator on a piece that
  is still too long, merge the pieces into chunks of at most \<open>chunk_size\<close> characters
  that share about \<open>chunk_overlap\<close> characters) in the way the library's
  \<open>split_text\<close> does it with the arguments \<open>chunk_text\<close> passes: separators are kept
  at the start of the piece that follows them, and every merged chunk is stripped of
  surrounding whitespace and dropped when nothing is left.
\<close>

text \<open>\<open>str.isspace\<close> for one character, and \<open>str.strip()\<close>.\<close>

definition is_space :: "char \<Rightarrow> bool" where
  "is_space c = (of_char c \<in> {9, 10, 11, 12, 13, 28, 29, 30, 31, 32, 133, 160 :: nat})"

definition strip :: "string \<Rightarrow> string" where
  "strip s = rev (dropWhile is_space (rev (dropWhile is_space s)))"

text \<open>\<open>separator.join(docs)\<close>.\<close>

fun str_join :: "string \<Rightarrow> string list \<Rightarrow> string" where
  "str_join sep [] = []"
| "str_join sep [x] = x"
| "str_join sep (x # y # ys) = x @ sep @ str_join sep (y # ys)"

definition starts_with :: "string \<Rightarrow> string \<Rightarrow> bool" where
  "starts_with sep text = (take (length sep) text = sep)"

text \<open>\<open>re.search(re.escape(sep), text)\<close>: the separator occurs in the text.\<close>

fun contains :: "string \<Rightarrow> string \<Rightarrow> bool" where
  "contains sep [] = (sep = [])"
| "contains sep (c # cs) = (starts_with sep (c # cs) \<or> contains sep cs)"

text \<open>
  \<open>re.split\<close> on a literal, non-empty separator: the pieces between the leftmost,
  non-overlapping occurrences.
\<close>

function re_split :: "string \<Rightarrow> string \<Rightarrow> string list" where
  "re_split sep [] = [[]]"
| "re_split sep (c # cs) =
     (if sep \<noteq> [] \<and> starts_with sep (c # cs)
      then [] # re_split sep (drop (length sep) (c # cs))
      else (case re_split sep cs of [] \<Rightarrow> [[c]] | p # ps \<Rightarrow> (c # p) # ps))"
  by pat_completeness auto
termination
  by (relation "measure (\<lambda>(sep, text). length text)") auto

text \<open>
  \<open>_split_text_with_regex(text, separator, keep_separator=True)\<close>: with the separator
  captured, \<open>re.split\<close> returns \<open>[p0, sep, p1, sep, p2, ...]\<close>, and the pieces are
  \<open>p0, sep + p1, sep + p2, ...\<close>; an empty separator splits into characters; empty
  pieces are dropped.
\<close>

definition split_text_with_regex :: "string \<Rightarrow> string \<Rightarrow> string list" where
  "split_text_with_regex text separator =
     filter (\<lambda>s. s \<noteq> [])
       (if separator \<noteq> [] then
          (case re_split separator text of
             [] \<Rightarrow> []
           | p # ps \<Rightarrow> p # map (\<lambda>q. separator @ q) ps)
        else map (\<lambda>c. [c]) text)"

definition join_docs :: "string list \<Rightarrow> string \<Rightarrow> string option" where
  "join_docs docs separator =
     (let text = strip (str_join separator docs) in if text = [] then None else Some text)"

text \<open>
  \<open>doc = self._join_docs(current_doc, separator)\<close> followed by
  \<open>if doc is not None: docs.append(doc)\<close>, and the term
  \<open>(separator_len if ... else 0)\<close>.
\<close>

definition append_doc :: "string list \<Rightarrow> string list \<Rightarrow> string \<Rightarrow> string list" where
  "append_doc docs current_doc separator =
     (case join_docs current_doc separator of None \<Rightarrow> docs | Some doc \<Rightarrow> docs @ [doc])"

definition sep_if :: "bool \<Rightarrow> int \<Rightarrow> int" where
  "sep_if b separator_len = (if b then separator_len else 0)"

text \<open>
  The inner \<open>while\<close> loop of \<open>_merge_splits\<close>, dropping pieces from the front of
  \<open>current_doc\<close>; \<open>current_doc[0]\<close> of an empty list raises \<open>IndexError\<close>.
\<close>

function pop_docs ::
  "int \<Rightarrow> int \<Rightarrow> int \<Rightarrow> int \<Rightarrow> string list \<Rightarrow> int \<Rightarrow> error + string list \<times> int" where
  "pop_docs chunk_size chunk_overlap separator_len len current_doc total_len =
     (if total_len > chunk_overlap
         \<or> (total_len + len + sep_if (length current_doc > 0) separator_len > chunk_size
             \<and> total_len > 0)
      then
        (case current_doc of
           [] \<Rightarrow> Inl (IndexError ''list index out of range'')
         | d # ds \<Rightarrow>
             pop_docs chunk_size chunk_overlap separator_len len ds
               (total_len - (int (length d) + sep_if (length current_doc > 1) separator_len)))
      else Inr (current_doc, total_len))"
  by pat_completeness auto
termination
  by (relation "measure (\<lambda>(cs, co, sl, l, cur, t). length cur)") auto

declare pop_docs.simps [simp del]

text \<open>The \<open>for d in splits\<close> loop of \<open>_merge_splits\<close> and its final join.\<close>

fun merge_loop ::
  "int \<Rightarrow> int \<Rightarrow> string \<Rightarrow> string list \<Rightarrow> string list \<Rightarrow> string list \<Rightarrow> int
     \<Rightarrow> error + string list" where
  "merge_loop chunk_size chunk_overlap separator [] docs current_doc total_len =
     Inr (append_doc docs current_doc separator)"
| "merge_loop chunk_size chunk_overlap separator (d # ds) docs current_doc total_len =
     (let len = int (length d); separator_len = int (length separator) in
      if total_len + len + sep_if (length current_doc > 0) separator_len > chunk_size
         \<and> length current_doc > 0
      then
        (case pop_docs chunk_size chunk_overlap separator_len len current_doc total_len of
           Inl err \<Rightarrow> Inl err
         | Inr (current_doc1, total_len1) \<Rightarrow>
             merge_loop chunk_size chunk_overlap separator ds
               (append_doc docs current_doc separator) (current_doc1 @ [d])
               (total_len1 + len + sep_if (length (current_doc1 @ [d]) > 1) separator_len))
      else
        merge_loop chunk_size chunk_overlap separator ds docs (current_doc @ [d])
          (total_len + len + sep_if (length (current_doc @ [d]) > 1) separator_len))"

definition merge_splits :: "int \<Rightarrow> int \<Rightarrow> string list \<Rightarrow> string \<Rightarrow> error + string list" where
  "merge_splits chunk_size chunk_overlap splits separator =
     merge_loop chunk_size chunk_overlap separator splits [] [] 0"

text \<open>
  The separator search at the head of \<open>_split_text\<close>: the loop breaks at the first
  separator that is empty or occurs in the text; otherwise the last separator is used
  and no separators are left.
\<close>

fun find_separator :: "string list \<Rightarrow> string \<Rightarrow> (string \<times> string list) option" where
  "find_separator [] text = None"
| "find_separator (s # rest) text =
     (if s = [] then Some (s, [])
      else if contains s text then Some (s, rest)
      else find_separator rest text)"

definition choose_separator :: "string list \<Rightarrow> string \<Rightarrow> string \<times> string list" where
  "choose_separator separators text =
     (case find_separator separators text of Some p \<Rightarrow> p | None \<Rightarrow> (last separators, []))"

text \<open>
  Flushing \<open>_good_splits\<close> into \<open>final_chunks\<close>; the merge separator is empty because the
  separators are kept in the pieces.
\<close>

definition flush_good ::
  "int \<Rightarrow> int \<Rightarrow> string list \<Rightarrow> string list \<Rightarrow> error + string list" where
  "flush_good chunk_size chunk_overlap good final_chunks =
     (if good \<noteq> [] then
        (case merge_splits chunk_size chunk_overlap good [] of
           Inl err \<Rightarrow> Inl err
         | Inr merged \<Rightarrow> Inr (final_chunks @ merged))
      else Inr final_chunks)"

text \<open>
  The \<open>for s in splits\<close> loop of \<open>_split_text\<close>; \<open>recurse\<close> is the recursive call with
  the separators that are left, \<open>None\<close> when none is left.
\<close>

fun split_loop ::
  "int \<Rightarrow> int \<Rightarrow> (string \<Rightarrow> error + string list) option \<Rightarrow> string list \<Rightarrow> string list
     \<Rightarrow> string list \<Rightarrow> error + string list" where
  "split_loop chunk_size chunk_overlap recurse [] good final_chunks =
     flush_good chunk_size chunk_overlap good final_chunks"
| "split_loop chunk_size chunk_overlap recurse (s # ss) good final_chunks =
     (if int (length s) < chunk_size
      then split_loop chunk_size chunk_overlap recurse ss (good @ [s]) final_chunks
      else
        (case flush_good chunk_size chunk_overlap good final_chunks of
           Inl err \<Rightarrow> Inl err
         | Inr final1 \<Rightarrow>
             (case recurse of
                None \<Rightarrow> split_loop chunk_size chunk_overlap recurse ss [] (final1 @ [s])
              | Some f \<Rightarrow>
                  (case f s of
                     Inl err \<Rightarrow> Inl err
                   | Inr other_info \<Rightarrow>
                       split_loop chunk_size chunk_overlap recurse ss [] (final1 @ other_info)))))"

text \<open>\<open>_split_text(text, separators)\<close>; \<open>separators[-1]\<close> of an empty list raises.\<close>

function split_text_rec :: "int \<Rightarrow> int \<Rightarrow> string list \<Rightarrow> string \<Rightarrow> error + string list" where
  "split_text_rec chunk_size chunk_overlap separators text =
     (if separators = [] then Inl (IndexError ''list index out of range'')
      else
        split_loop chunk_size chunk_overlap
          (if snd (choose_separator separators text) = [] then None
           else Some (\<lambda>s. split_text_rec chunk_size chunk_overlap
                             (snd (choose_separator separators text)) s))
          (split_text_with_regex text (fst (choose_separator separators text))) [] [])"
  by pat_completeness auto
termination
proof (relation "measure (\<lambda>(cs, co, seps, text). length seps)")
  show "wf (measure (\<lambda>(cs, co, seps, text). length seps))"
    by simp
next
  fix chunk_size chunk_overlap :: int and separators :: "string list" and t s :: string
  assume left: "snd (choose_separator separators t) \<noteq> []"
  have shorter: "find_separator seps t = Some (x, rest) \<Longrightarrow> length rest < length seps"
    for seps x rest
    by (induction seps) (auto split: if_splits)
  from left have "length (snd (choose_separator separators t)) < length separators"
    by (auto simp: choose_separator_def split: option.splits dest: shorter)
  then show "((chunk_size, chunk_overlap, snd (choose_separator separators t), s),
              (chunk_size, chunk_overlap, separators, t))
             \<in> measure (\<lambda>(cs, co, seps, text). length seps)"
    by simp
qed

declare split_text_rec.simps [simp del]

text \<open>The splitter object: the constructor arguments \<open>chunk_text\<close> passes.\<close>

record text_splitter =
  ts_chunk_size :: int
  ts_chunk_overlap :: int
  ts_separators :: "string list"

text \<open>The constructor rejects sizes that make no sense.\<close>

definition new_text_splitter :: "int \<Rightarrow> int \<Rightarrow> string list \<Rightarrow> error + text_splitter" where
  "new_text_splitter chunk_size chunk_overlap separators =
     (if chunk_size \<le> 0 then Inl (ValueError ''chunk_size must be > 0'')
      else if chunk_overlap < 0 then Inl (ValueError ''chunk_overlap must be >= 0'')
      else if chunk_overlap > chunk_size
      then Inl (ValueError ''Got a larger chunk overlap than chunk size'')
      else Inr \<lparr>ts_chunk_size = chunk_size, ts_chunk_overlap = chunk_overlap,
                ts_separators = separators\<rparr>)"

definition split_text :: "text_splitter \<Rightarrow> string \<Rightarrow> error + string list" where
  "split_text sp text =
     split_text_rec (ts_chunk_size sp) (ts_chunk_overlap sp) (ts_separators sp) text"

section \<open>document\_processor.py: DocumentProcessor\<close>

record document_processor =
  dp_text_splitter :: "text_splitter option"

definition document_processor_init :: document_processor where
  "document_processor_init = \<lparr>dp_text_splitter = None\<rparr>"

definition newline :: string where
  "newline = [CHR 0x0A]"

definition default_separators :: "string list" where
  "default_separators = [newline @ newline, newline, '' '', []]"

text \<open>
  \<open>chunk_text\<close>: the cached splitter is replaced when there is none or when its sizes
  differ from the arguments; then the text is split.
\<close>

definition chunk_text ::
  "document_processor \<Rightarrow> string \<Rightarrow> int \<Rightarrow> int \<Rightarrow> (error + string list) \<times> document_processor" where
  "chunk_text dp text chunk_size chunk_overlap =
     (if dp_text_splitter dp = None
         \<or> ts_chunk_size (the (dp_text_splitter dp)) \<noteq> chunk_size
         \<or> ts_chunk_overlap (the (dp_text_splitter dp)) \<noteq> chunk_overlap
      then
        (case new_text_splitter chunk_size chunk_overlap default_separators of
           Inl err \<Rightarrow> (Inl err, dp)
         | Inr sp \<Rightarrow> (split_text sp text, dp\<lparr>dp_text_splitter := Some sp\<rparr>))
      else (split_text (the (dp_text_splitter dp)) text, dp))"

text \<open>\<open>str.lower()\<close> on one character.\<close>

definition lower_char :: "char \<Rightarrow> char" where
  "lower_char c =
     (let n = (of_char c :: nat)
      in if (65 \<le> n \<and> n \<le> 90) \<or> (192 \<le> n \<and> n \<le> 222 \<and> n \<noteq> 215)
         then char_of (n + 32) else c)"

record doc_data =
  dd_text :: string
  dd_filename :: string
  dd_file_type :: string
  dd_size :: int
  dd_pages :: "int option"

text \<open>
  \<open>process_file\<close>: the five readers are the parsers of the environment; every
  exception raised inside the \<open>try\<close> block, the \<open>ValueError\<close> of an unsupported
  format too, leaves as a plain \<open>Exception\<close>.
\<close>

definition process_file :: "env \<Rightarrow> string \<Rightarrow> error + doc_data" where
  "process_file e file_path =
     (let file_extension = map lower_char (path_suffix e file_path);
          wrap = (\<lambda>err. Exception (''Error processing file '' @ path_name e file_path @ '': ''
                                       @ err_str err))
      in case (if file_extension = ''.pdf'' then read_pdf e file_path
               else if file_extension = ''.docx'' then read_docx e file_path
               else if file_extension = ''.txt'' then read_txt e file_path
               else if file_extension \<in> set [''.xlsx'', ''.xls''] then read_excel e file_path
               else if file_extension = ''.csv'' then read_csv e file_path
               else Inl (ValueError (''Unsupported file format: '' @ file_extension))) of
           Inl err \<Rightarrow> Inl (wrap err)
         | Inr text_content \<Rightarrow>
             (case stat_size e file_path of
                Inl err \<Rightarrow> Inl (wrap err)
              | Inr file_size \<Rightarrow>
                  Inr \<lparr>dd_text = str_join (newline @ newline) text_content,
                       dd_filename = path_name e file_path,
                       dd_file_type = file_extension,
                       dd_size = file_size,
                       dd_pages = (if file_extension = ''.pdf''
                                   then Some (int (length text_content)) else None)\<rparr>))"

section \<open>settings.py\<close>

record settings =
  cfg_google_api_key :: string
  cfg_chroma_db_path :: string
  cfg_collection_name :: string
  cfg_embedding_model :: string
  cfg_llm_model :: string
  cfg_max_tokens :: int
  cfg_chunk_size :: int
  cfg_chunk_overlap :: int

text \<open>The defaults of the class; the key has none and comes from the environment.\<close>

definition default_settings :: "string \<Rightarrow> settings" where
  "default_settings key =
     \<lparr>cfg_google_api_key = key,
      cfg_chroma_db_path = ''./chroma_db'',
      cfg_collection_name = ''company_documents'',
      cfg_embedding_model = ''models/text-embedding-004'',
      cfg_llm_model = ''gemini-2.0-flash-exp'',
      cfg_max_tokens = 1024,
      cfg_chunk_size = 1000,
      cfg_chunk_overlap = 200\<rparr>"

section \<open>rag\_service.py: RAGService\<close>

text \<open>\<open>str(i)\<close> for a non-negative integer, as the f-strings print an index.\<close>

definition digit_char :: "nat \<Rightarrow> char" where
  "digit_char n = ''0123456789'' ! n"

function str_of_nat :: "nat \<Rightarrow> string" where
  "str_of_nat n =
     (if n < 10 then [digit_char n] else str_of_nat (n div 10) @ [digit_char (n mod 10)])"
  by pat_completeness auto
termination
  by (relation "measure id") auto

declare str_of_nat.simps [simp del]

text \<open>
  The service object.  The two model clients are the names of their models;
  \<open>documents_metadata\<close> is the document registry.
\<close>

record rag_service =
  rs_embeddings :: "string option"
  rs_llm :: "string option"
  rs_initialized :: bool
  documents_metadata :: "(string, metadata) dict"

text \<open>
  The three module-level singletons, and the prompts the generative model has been
  invoked with so far.
\<close>

record system =
  rag :: rag_service
  vector_store :: vector_store_service
  document_processor :: document_processor
  llm_calls :: "string list"

definition system_init :: system where
  "system_init =
     \<lparr>rag = \<lparr>rs_embeddings = None, rs_llm = None, rs_initialized = False,
             documents_metadata = []\<rparr>,
      vector_store = vector_store_init,
      document_processor = document_processor_init,
      llm_calls = []\<rparr>"

definition initialize :: "settings \<Rightarrow> env \<Rightarrow> system \<Rightarrow> (error + unit) \<times> system" where
  "initialize cfg e s =
     (if rs_initialized (rag s) then (Inr (), s)
      else
        (let s1 = s\<lparr>rag := (rag s)\<lparr>rs_embeddings := Some (cfg_embedding_model cfg),
                                     rs_llm := Some (cfg_llm_model cfg)\<rparr>\<rparr>
         in case vs_initialize e (vector_store s1) (cfg_chroma_db_path cfg)
                   (cfg_collection_name cfg) of
              (Inl err, vs) \<Rightarrow> (Inl err, s1\<lparr>vector_store := vs\<rparr>)
            | (Inr u, vs) \<Rightarrow>
                (Inr (), s1\<lparr>vector_store := vs,
                            rag := (rag s1)\<lparr>rs_initialized := True\<rparr>\<rparr>)))"

text \<open>\<open>if not self.initialized: await self.initialize()\<close>, the head of every operation.\<close>

definition ensure_initialized :: "settings \<Rightarrow> env \<Rightarrow> system \<Rightarrow> (error + unit) \<times> system" where
  "ensure_initialized cfg e s =
     (if \<not> rs_initialized (rag s) then initialize cfg e s else (Inr (), s))"

definition none_attribute :: "string \<Rightarrow> error" where
  "none_attribute a =
     AttributeError ([CHR 0x27] @ ''NoneType'' @ [CHR 0x27] @ '' object has no attribute ''
                     @ [CHR 0x27] @ a @ [CHR 0x27])"

text \<open>
  The loop of \<open>add_document\<close> over \<open>enumerate(chunks)\<close>: it appends one id and one
  metadata dictionary per chunk; \<open>n\<close> is \<open>len(chunks)\<close>.
\<close>

fun chunk_loop ::
  "string \<Rightarrow> doc_data \<Rightarrow> metadata \<Rightarrow> nat \<Rightarrow> nat \<Rightarrow> string list \<Rightarrow> string list \<Rightarrow> metadata list
     \<Rightarrow> string list \<times> metadata list" where
  "chunk_loop doc_id dd md n i [] chunk_ids chunk_metadatas = (chunk_ids, chunk_metadatas)"
| "chunk_loop doc_id dd md n i (chunk # rest) chunk_ids chunk_metadatas =
     chunk_loop doc_id dd md n (i + 1) rest
       (chunk_ids @ [doc_id @ ''_chunk_'' @ str_of_nat i])
       (chunk_metadatas @
          [dict_merge
             [(''source'', PStr (dd_filename dd)),
              (''document_id'', PStr doc_id),
              (''chunk_index'', PInt (int i)),
              (''total_chunks'', PInt (int n)),
              (''file_type'', PStr (dd_file_type dd))]
             md])"

text \<open>The registry entry of a document.\<close>

definition document_entry :: "env \<Rightarrow> string \<Rightarrow> doc_data \<Rightarrow> nat \<Rightarrow> metadata \<Rightarrow> metadata" where
  "document_entry e doc_id dd n md =
     dict_merge
       [(''id'', PStr doc_id),
        (''filename'', PStr (dd_filename dd)),
        (''file_type'', PStr (dd_file_type dd)),
        (''size'', PInt (dd_size dd)),
        (''upload_date'', PStr (now_isoformat e)),
        (''chunks_count'', PInt (int n))]
       md"

definition no_text_error :: error where
  "no_text_error = ValueError ''No text content could be extracted from the document''"

definition add_document ::
  "settings \<Rightarrow> env \<Rightarrow> system \<Rightarrow> string \<Rightarrow> metadata \<Rightarrow> (error + string) \<times> system" where
  "add_document cfg e s document_path md =
     (case ensure_initialized cfg e s of
        (Inl err, s1) \<Rightarrow> (Inl err, s1)
      | (Inr u, s1) \<Rightarrow>
     (case process_file e document_path of
        Inl err \<Rightarrow> (Inl err, s1)
      | Inr dd \<Rightarrow>
     (case chunk_text (document_processor s1) (dd_text dd) (cfg_chunk_size cfg)
             (cfg_chunk_overlap cfg) of
        (Inl err, dp) \<Rightarrow> (Inl err, s1\<lparr>document_processor := dp\<rparr>)
      | (Inr chunks, dp) \<Rightarrow>
     (let s2 = s1\<lparr>document_processor := dp\<rparr> in
      if chunks = [] then (Inl no_text_error, s2)
      else
     (let doc_id = uuid4 e in
      if rs_embeddings (rag s2) = None then (Inl (none_attribute ''embed_documents''), s2)
      else
     (case embed_documents e chunks of
        Inl err \<Rightarrow> (Inl err, s2)
      | Inr chunk_embeddings \<Rightarrow>
     (case chunk_loop doc_id dd md (length chunks) 0 chunks [] [] of
        (chunk_ids, chunk_metadatas) \<Rightarrow>
     (case add_documents e (vector_store s2) chunks chunk_embeddings chunk_metadatas chunk_ids of
        (Inl err, vs) \<Rightarrow> (Inl err, s2\<lparr>vector_store := vs\<rparr>)
      | (Inr u, vs) \<Rightarrow>
          (Inr doc_id,
           s2\<lparr>vector_store := vs,
              rag := (rag s2)\<lparr>documents_metadata :=
                       AList.update doc_id (document_entry e doc_id dd (length chunks) md)
                         (documents_metadata (rag s2))\<rparr>\<rparr>)))))))))"

record source =
  document_name :: pyval
  content :: string
  relevance_score :: real

record query_response =
  answer :: string
  sources :: "source list"
  context_used :: bool

definition insufficient_answer :: string where
  \<open>insufficient_answer = ''I don\'t have enough information in the knowledge base to answer this question. Please upload relevant documents first.''\<close>

text \<open>
  The loop of \<open>query\<close> over \<open>enumerate(search_results, 1)\<close>: one context part and one
  source per retrieved chunk.
\<close>

fun source_loop ::
  "nat \<Rightarrow> search_result list \<Rightarrow> string list \<Rightarrow> source list \<Rightarrow> string list \<times> source list" where
  "source_loop i [] context_parts srcs = (context_parts, srcs)"
| "source_loop i (result # rest) context_parts srcs =
     source_loop (i + 1) rest
       (context_parts @ [''[Source '' @ str_of_nat i @ '']: '' @ sr_document result])
       (srcs @
          [\<lparr>document_name =
              (case map_of (sr_metadata result) ''source'' of
                 None \<Rightarrow> PStr ''Unknown'' | Some v \<Rightarrow> v),
            content =
              (if length (sr_document result) > 200
               then take 200 (sr_document result) @ ''...''
               else sr_document result),
            relevance_score = 1 - sr_distance result\<rparr>])"

text \<open>The prompt template, with the context and the question filled in.\<close>

definition prompt_head :: string where
  \<open>prompt_head = ''You are a helpful AI assistant for QSS Technosoft. Answer the user\'s question based on the following context from the company documents.\<newline>\<newline>Context:\<newline>''\<close>

definition prompt_instructions :: string where
  \<open>prompt_instructions = ''\<newline>\<newline>Instructions:\<newline>- First, determine if the question is related to QSS Technosoft, the company\'s services, products, or business\<newline>- If the question is NOT related to QSS Technosoft (e.g., general knowledge questions, unrelated topics), respond with: "This question is not related to QSS Technosoft. Please ask questions about our company, services, products, or business operations."\<newline>- If the question IS related to QSS Technosoft but the context doesn\'t have the answer, respond with: "I don\'t have specific information about this in the available documents. Please contact QSS Technosoft directly for more details."\<newline>- For valid company-related questions with available information:\<newline>  - Provide a direct, clear and concise answer based on the context provided\<newline>  - Format your answer using bullet points (using - or *) when listing multiple items or facts\<newline>  - For single fact answers, you can respond in a sentence without bullets\<newline>  - Do NOT mention sources, source numbers, or where the information came from\<newline>  - Do NOT use phrases like "according to", "mentioned in", "as stated in", "this document", or similar references\<newline>  - Answer naturally as if you are stating a fact\<newline>- Maintain a professional and helpful tone\<newline>\<newline>Answer:''\<close>

definition build_prompt :: "string \<Rightarrow> string \<Rightarrow> string" where
  "build_prompt ctxt question =
     prompt_head @ ctxt @ newline @ newline @ ''Question: '' @ question @ prompt_instructions"

definition query ::
  "settings \<Rightarrow> env \<Rightarrow> system \<Rightarrow> string \<Rightarrow> int \<Rightarrow> (error + query_response) \<times> system" where
  "query cfg e s question top_k =
     (case ensure_initialized cfg e s of
        (Inl err, s1) \<Rightarrow> (Inl err, s1)
      | (Inr u, s1) \<Rightarrow>
     (if rs_embeddings (rag s1) = None then (Inl (none_attribute ''embed_query''), s1)
      else
     (case embed_query e question of
        Inl err \<Rightarrow> (Inl err, s1)
      | Inr query_embedding \<Rightarrow>
     (case similarity_search e (vector_store s1) query_embedding top_k None of
        (Inl err, vs) \<Rightarrow> (Inl err, s1\<lparr>vector_store := vs\<rparr>)
      | (Inr search_results, vs) \<Rightarrow>
     (let s2 = s1\<lparr>vector_store := vs\<rparr> in
      if search_results = []
      then (Inr \<lparr>answer = insufficient_answer, sources = [], context_used = False\<rparr>, s2)
      else
     (case source_loop 1 search_results [] [] of
        (context_parts, srcs) \<Rightarrow>
     (let prompt = build_prompt (str_join (newline @ newline) context_parts) question in
      if rs_llm (rag s2) = None
      then (Inl (Exception (''Error generating response: ''
                            @ err_str (none_attribute ''invoke''))), s2)
      else
     (case llm_invoke e prompt of
        Inl err \<Rightarrow>
          (Inl (Exception (''Error generating response: '' @ err_str err)),
           s2\<lparr>llm_calls := llm_calls s2 @ [prompt]\<rparr>)
      | Inr ans \<Rightarrow>
          (Inr \<lparr>answer = ans, sources = srcs, context_used = True\<rparr>,
           s2\<lparr>llm_calls := llm_calls s2 @ [prompt]\<rparr>)))))))))"

text \<open>
  \<open>delete_document\<close> reads the collection object directly, without the guard of the
  vector store service.
\<close>

definition delete_document ::
  "settings \<Rightarrow> env \<Rightarrow> system \<Rightarrow> string \<Rightarrow> (error + unit) \<times> system" where
  "delete_document cfg e s document_id =
     (case ensure_initialized cfg e s of
        (Inl err, s1) \<Rightarrow> (Inl err, s1)
      | (Inr u, s1) \<Rightarrow>
     (case vs_collection (vector_store s1) of
        None \<Rightarrow> (Inl (none_attribute ''get''), s1)
      | Some c \<Rightarrow>
     (case collection_get e c (Some [(''document_id'', PStr document_id)]) of
        Inl err \<Rightarrow> (Inl err, s1)
      | Inr ids \<Rightarrow>
     (case (if length ids > 0 then delete_documents e (vector_store s1) ids
            else (Inr (), vector_store s1)) of
        (Inl err, vs) \<Rightarrow> (Inl err, s1\<lparr>vector_store := vs\<rparr>)
      | (Inr u, vs) \<Rightarrow>
          (Inr (),
           s1\<lparr>vector_store := vs,
              rag := (rag s1)\<lparr>documents_metadata :=
                       (if map_of (documents_metadata (rag s1)) document_id \<noteq> None
                        then AList.delete document_id (documents_metadata (rag s1))
                        else documents_metadata (rag s1))\<rparr>\<rparr>)))))"

definition get_all_documents ::
  "settings \<Rightarrow> env \<Rightarrow> system \<Rightarrow> (error + metadata list) \<times> system" where
  "get_all_documents cfg e s =
     (case ensure_initialized cfg e s of
        (Inl err, s1) \<Rightarrow> (Inl err, s1)
      | (Inr u, s1) \<Rightarrow> (Inr (map snd (documents_metadata (rag s1))), s1))"


record collection_stats =
  total_documents :: int
  total_chunks :: int
  collection_name :: string

definition get_collection_stats ::
  "settings \<Rightarrow> env \<Rightarrow> system \<Rightarrow> (error + collection_stats) \<times> system" where
  "get_collection_stats cfg e s =
     (case ensure_initialized cfg e s of
        (Inl err, s1) \<Rightarrow> (Inl err, s1)
      | (Inr u, s1) \<Rightarrow>
     (case get_collection_info e (vector_store s1) of
        (Inl err, vs) \<Rightarrow> (Inl err, s1\<lparr>vector_store := vs\<rparr>)
      | (Inr info, vs) \<Rightarrow>
          (Inr \<lparr>total_documents = int (length (documents_metadata (rag s1))),
                total_chunks = ci_count info,
                collection_name = ci_name info\<rparr>,
           s1\<lparr>vector_store := vs\<rparr>)))"

section \<open>Reachable states and sample data\<close>

text \<open>
  What the two \<open>initialize\<close> methods establish and every operation keeps: an
  initialized vector store has its collection, and an initialized orchestrator has
  both model clients and an initialized vector store.
\<close>

definition wf_system :: "system \<Rightarrow> bool" where
  "wf_system s =
     ((\<not> vs_initialized (vector_store s) \<or> vs_collection (vector_store s) \<noteq> None)
      \<and> (\<not> rs_initialized (rag s)
         \<or> (rs_embeddings (rag s) \<noteq> None \<and> rs_llm (rag s) \<noteq> None
            \<and> vs_initialized (vector_store s))))"

text \<open>
  A sequence of \<open>chunk_text\<close> calls on the shared processor, each with its own text and
  sizes: the state of the cached splitter after them.
\<close>

fun chunk_calls :: "document_processor \<Rightarrow> (string \<times> int \<times> int) list \<Rightarrow> document_processor" where
  "chunk_calls dp [] = dp"
| "chunk_calls dp ((t, chunk_size, chunk_overlap) # rest) =
     chunk_calls (snd (chunk_text dp t chunk_size chunk_overlap)) rest"

text \<open>
  Sample data: an environment in which nothing fails, with a one-dimensional embedding
  (the length of the text) and the distance \<open>|a - b| / 10\<close>; the uploaded file
  \<open>policy.txt\<close> holds the text \<open>hello world foo bar\<close>, which makes three chunks
  for a chunk size of 10 and a chunk overlap of 2.
\<close>

definition demo_env :: env where
  "demo_env =
     \<lparr>path_suffix = (\<lambda>p. ''.txt''),
      path_name = (\<lambda>p. ''policy.txt''),
      stat_size = (\<lambda>p. Inr 19),
      read_pdf = (\<lambda>p. Inr []),
      read_docx = (\<lambda>p. Inr []),
      read_txt = (\<lambda>p. Inr [''hello world foo bar'']),
      read_excel = (\<lambda>p. Inr []),
      read_csv = (\<lambda>p. Inr []),
      embed_documents = (\<lambda>ts. Inr (map (\<lambda>t. [real (length t)]) ts)),
      embed_query = (\<lambda>q. Inr [real (length q)]),
      llm_invoke = (\<lambda>p. Inr ''An answer.''),
      uuid4 = ''doc-1'',
      now_isoformat = ''2025-01-01T00:00:00'',
      persisted = (\<lambda>p n. None),
      chroma_fault = (\<lambda>op. None),
      distance_fn = (\<lambda>a b. \<bar>sum_list a - sum_list b\<bar> / 10)\<rparr>"

definition demo_settings :: settings where
  "demo_settings = default_settings ''key''"

definition small_settings :: settings where
  "small_settings = demo_settings\<lparr>cfg_chunk_size := 10, cfg_chunk_overlap := 2\<rparr>"

text \<open>The records of the vector index, none before the collection is opened.\<close>

definition indexed_records :: "system \<Rightarrow> chunk_record list" where
  "indexed_records s =
     (case vs_collection (vector_store s) of None \<Rightarrow> [] | Some c \<Rightarrow> coll_records c)"

text \<open>
  An initialized system holding the three chunks of one document \<open>d\<close>; from the
  embedding of a one-character question their distances are 0.1, 0.3 and 0.5.
\<close>

definition demo_records :: "chunk_record list" where
  "demo_records =
     [\<lparr>rec_id = ''d_chunk_0'', rec_document = ''alpha'', rec_embedding = [2],
       rec_metadata = [(''source'', PStr ''policy.txt''), (''document_id'', PStr ''d'')]\<rparr>,
      \<lparr>rec_id = ''d_chunk_1'', rec_document = ''beta'', rec_embedding = [4],
       rec_metadata = [(''document_id'', PStr ''d'')]\<rparr>,
      \<lparr>rec_id = ''d_chunk_2'', rec_document = replicate 201 CHR ''x'', rec_embedding = [6],
       rec_metadata = [(''source'', PStr ''policy.txt''), (''document_id'', PStr ''d'')]\<rparr>]"

definition demo_system :: system where
  "demo_system =
     \<lparr>rag = \<lparr>rs_embeddings = Some ''models/text-embedding-004'',
             rs_llm = Some ''gemini-2.0-flash-exp'',
             rs_initialized = True,
             documents_metadata = [(''d'', [(''id'', PStr ''d''), (''chunks_count'', PInt 3)])]\<rparr>,
      vector_store =
        \<lparr>vs_client = Some ''./chroma_db'',
         vs_collection = Some \<lparr>coll_name = ''company_documents'',
                                coll_metadata = [(''hnsw:space'', ''cosine'')],
                                coll_records = demo_records\<rparr>,
         vs_initialized = True\<rparr>,
      document_processor = document_processor_init,
      llm_calls = []\<rparr>"

text \<open>What the similarity search returns for a one-character question on that system.\<close>

definition demo_results :: "search_result list" where
  "demo_results =
     [\<lparr>sr_document = ''alpha'',
       sr_metadata = [(''source'', PStr ''policy.txt''), (''document_id'', PStr ''d'')],
       sr_distance = 0.1, sr_id = Some ''d_chunk_0''\<rparr>,
      \<lparr>sr_document = ''beta'',
       sr_metadata = [(''document_id'', PStr ''d'')],
       sr_distance = 0.3, sr_id = Some ''d_chunk_1''\<rparr>,
      \<lparr>sr_document = replicate 201 CHR ''x'',
       sr_metadata = [(''source'', PStr ''policy.txt''), (''document_id'', PStr ''d'')],
       sr_distance = 0.5, sr_id = Some ''d_chunk_2''\<rparr>]"

text \<open>
  The cached splitter of a processor is one the constructor has returned for the
  separators of \<open>chunk_text\<close>.
\<close>

definition splitter_cached :: "document_processor \<Rightarrow> bool" where
  "splitter_cached dp =
     (case dp_text_splitter dp of
        None \<Rightarrow> True
      | Some sp \<Rightarrow>
          new_text_splitter (ts_chunk_size sp) (ts_chunk_overlap sp) default_separators = Inr sp)"

text \<open>What \<open>process_file\<close> returns for the sample file.\<close>

definition demo_doc :: doc_data where
  "demo_doc =
     \<lparr>dd_text = ''hello world foo bar'', dd_filename = ''policy.txt'', dd_file_type = ''.txt'',
      dd_size = 19, dd_pages = None\<rparr>"

text \<open>The same environment with an uploaded file that holds no text.\<close>

definition blank_env :: env where
  "blank_env = demo_env\<lparr>read_txt := (\<lambda>p. Inr []), stat_size := (\<lambda>p. Inr 0)\<rparr>"

section \<open>The vector store before \<open>initialize\<close>\<close>

text \<open>
  C9: every operation of the vector store service called before \<open>initialize\<close> fails
  with the error \<open>Vector store not initialized\<close> and leaves the service as it was:
  adding, searching, deleting, describing the collection, clearing it and the two id
  listings.
\<close>

theorem operations_before_initialize:
  assumes "\<not> vs_initialized vs"
  shows "add_documents e vs documents embeddings metadatas ids = (Inl not_initialized, vs)
       \<and> similarity_search e vs query_embedding top_k filter_dict = (Inl not_initialized, vs)
       \<and> delete_documents e vs document_ids = (Inl not_initialized, vs)
       \<and> get_collection_info e vs = (Inl not_initialized, vs)
       \<and> clear_collection e vs = (Inl not_initialized, vs)
       \<and> get_all_document_ids e vs = (Inl not_initialized, vs)
       \<and> get_documents_by_source e vs source_filename = (Inl not_initialized, vs)"
  using assms
  by (simp add: add_documents_def similarity_search_def delete_documents_def
      get_collection_info_def clear_collection_def get_all_document_ids_def
      get_documents_by_source_def)

theorem operations_before_initialize_witness:
  "\<not> vs_initialized vector_store_init
   \<and> add_documents demo_env vector_store_init [''a''] [[1]] [[]] [''x'']
       = (Inl (RuntimeError ''Vector store not initialized''), vector_store_init)
   \<and> similarity_search demo_env vector_store_init [1] 5 None
       = (Inl (RuntimeError ''Vector store not initialized''), vector_store_init)
   \<and> delete_documents demo_env vector_store_init [''x'']
       = (Inl (RuntimeError ''Vector store not initialized''), vector_store_init)
   \<and> get_collection_info demo_env vector_store_init
       = (Inl (RuntimeError ''Vector store not initialized''), vector_store_init)"
proof -
  have h: "\<not> vs_initialized vector_store_init"
    by (simp add: vector_store_init_def)
  show ?thesis
    using h
      operations_before_initialize [OF h, of demo_env "[''a'']" "[[1]]" "[[]]" "[''x'']"
        "[1]" 5 None "[''x'']" "''x''"]
    by (simp add: not_initialized_def)
qed

section \<open>Initialization and the query operation\<close>

lemma ensure_initialized_ok:
  assumes "wf_system s" and "ensure_initialized cfg e s = (Inr u, s1)"
  shows "rs_initialized (rag s1)" and "rs_embeddings (rag s1) \<noteq> None" and "rs_llm (rag s1) \<noteq> None"
    and "vs_initialized (vector_store s1)" and "vs_collection (vector_store s1) \<noteq> None"
    and "llm_calls s1 = llm_calls s"
    and "documents_metadata (rag s1) = documents_metadata (rag s)"
    and "document_processor s1 = document_processor s"
    and "rs_initialized (rag s) \<Longrightarrow> s1 = s"
  using assms
  by (auto simp: wf_system_def ensure_initialized_def initialize_def Let_def vs_initialize_def
           split: if_splits prod.splits sum.splits option.splits)

lemma similarity_search_state: "snd (similarity_search e vs q k f) = vs"
  by (simp add: similarity_search_def Let_def split: sum.splits)

lemma source_loop_sources:
  "snd (source_loop i rs cp srcs) =
     srcs @ map (\<lambda>r. \<lparr>document_name =
                         (case map_of (sr_metadata r) ''source'' of
                            None \<Rightarrow> PStr ''Unknown'' | Some v \<Rightarrow> v),
                       content =
                         (if length (sr_document r) > 200
                          then take 200 (sr_document r) @ ''...''
                          else sr_document r),
                       relevance_score = 1 - sr_distance r\<rparr>) rs"
  by (induction rs arbitrary: i cp srcs) auto

text \<open>
  C1: when the similarity search of a query returns an empty result sequence, \<open>query\<close>
  returns the fixed answer about missing knowledge, an empty list of sources and
  \<open>context_used = False\<close>, and the generative model is not invoked: the log of its
  invocations is the one before the call.
\<close>

theorem query_empty_retrieval:
  assumes "wf_system s"
    and "ensure_initialized cfg e s = (Inr (), s1)"
    and "embed_query e question = Inr query_embedding"
    and "fst (similarity_search e (vector_store s1) query_embedding top_k None) = Inr []"
  shows "fst (query cfg e s question top_k)
           = Inr \<lparr>answer = insufficient_answer, sources = [], context_used = False\<rparr>
       \<and> llm_calls (snd (query cfg e s question top_k)) = llm_calls s"
proof -
  obtain r vs where ss: "similarity_search e (vector_store s1) query_embedding top_k None = (r, vs)"
    by (cases "similarity_search e (vector_store s1) query_embedding top_k None")
  with assms(4) have r: "r = Inr []" by simp
  from ensure_initialized_ok(2,6) [OF assms(1,2)] assms(2,3) ss r
  show ?thesis
    by (simp add: query_def)
qed

theorem query_empty_retrieval_witness:
  "wf_system system_init
   \<and> fst (query demo_settings demo_env system_init ''What is the policy?'' 5)
       = Inr \<lparr>answer = insufficient_answer, sources = [], context_used = False\<rparr>
   \<and> llm_calls (snd (query demo_settings demo_env system_init ''What is the policy?'' 5)) = []"
proof -
  let ?s1 = "snd (ensure_initialized demo_settings demo_env system_init)"
  have h1: "wf_system system_init"
    by (simp add: wf_system_def system_init_def vector_store_init_def)
  have "fst (ensure_initialized demo_settings demo_env system_init) = Inr ()"
    by (simp add: ensure_initialized_def initialize_def system_init_def vector_store_init_def
        vs_initialize_def demo_env_def get_or_create_collection_def Let_def)
  then have h2: "ensure_initialized demo_settings demo_env system_init = (Inr (), ?s1)"
    by (simp add: prod_eq_iff)
  have h3: "embed_query demo_env ''What is the policy?'' = Inr [19]"
    by (simp add: demo_env_def)
  have h4: "fst (similarity_search demo_env (vector_store ?s1) [19] 5 None) = Inr []"
    by (simp add: ensure_initialized_def initialize_def system_init_def vector_store_init_def
        vs_initialize_def demo_env_def get_or_create_collection_def Let_def
        similarity_search_def collection_query_def format_results_def)
  show ?thesis
    using h1 query_empty_retrieval [OF h1 h2 h3 h4]
    by (simp add: system_init_def)
qed

lemma sorted_query_distances:
  assumes "collection_query e c q k f = Inr r" and "format_results r = Inr rs"
  shows "sorted (map sr_distance rs)"
proof -
  define cand where "cand = (case f of None \<Rightarrow> coll_records c
                        | Some f' \<Rightarrow> filter (matches_where f') (coll_records c))"
  define ranked where "ranked = take (nat k) (sort_key (\<lambda>r. distance_fn e q (rec_embedding r)) cand)"
  from assms(1) have r: "r = \<lparr>qr_ids = [map rec_id ranked],
                    qr_documents = [map rec_document ranked],
                    qr_metadatas = [map rec_metadata ranked],
                    qr_distances =
                      [map (\<lambda>r. distance_fn e q (rec_embedding r)) ranked]\<rparr>"
    by (auto simp: collection_query_def Let_def cand_def ranked_def split: option.splits if_splits)
  have s: "sorted (map (\<lambda>r. distance_fn e q (rec_embedding r)) ranked)"
    unfolding ranked_def by (simp add: take_map [symmetric] sorted_wrt_take)
  from assms(2) r have "map sr_distance rs = map (\<lambda>r. distance_fn e q (rec_embedding r)) ranked"
    by (auto simp: format_results_def comp_def intro!: nth_equalityI split: if_splits)
  with s show ?thesis by simp
qed

lemma similarity_search_sorted:
  assumes "fst (similarity_search e vs q k f) = Inr rs"
  shows "sorted (map sr_distance rs)"
  using assms
  by (auto simp: similarity_search_def Let_def split: if_splits sum.splits
      intro: sorted_query_distances)

lemma query_sources_eq:
  assumes "wf_system s"
    and "ensure_initialized cfg e s = (Inr (), s1)"
    and "embed_query e question = Inr query_embedding"
    and "fst (similarity_search e (vector_store s1) query_embedding top_k None) = Inr rs"
    and "rs \<noteq> []"
    and "fst (query cfg e s question top_k) = Inr resp"
  shows "sources resp = snd (source_loop 1 rs [] [])"
proof -
  obtain r vs where ss: "similarity_search e (vector_store s1) query_embedding top_k None = (r, vs)"
    by (cases "similarity_search e (vector_store s1) query_embedding top_k None")
  with assms(4) have r: "r = Inr rs" by simp
  from ensure_initialized_ok(2,3) [OF assms(1,2)] assms(2,3,5,6) ss r
  show ?thesis
    by (auto simp: query_def Let_def split: prod.splits sum.splits if_splits)
qed

text \<open>
  C2: for a non-empty retrieval result the relevance score of every source is one
  minus the distance of the retrieved chunk, in retrieval order; the distances are
  ascending, so the scores are non-increasing; distances 0.1, 0.3, 0.5 give the scores
  0.9, 0.7, 0.5.
\<close>

theorem query_relevance_scores:
  assumes "wf_system s"
    and "ensure_initialized cfg e s = (Inr (), s1)"
    and "embed_query e question = Inr query_embedding"
    and "fst (similarity_search e (vector_store s1) query_embedding top_k None) = Inr rs"
    and "rs \<noteq> []"
    and "fst (query cfg e s question top_k) = Inr resp"
  shows "map relevance_score (sources resp) = map (\<lambda>r. 1 - sr_distance r) rs
       \<and> sorted (map sr_distance rs)
       \<and> sorted_wrt (\<ge>) (map relevance_score (sources resp))
       \<and> (map sr_distance rs = [0.1, 0.3, 0.5]
            \<longrightarrow> map relevance_score (sources resp) = [0.9, 0.7, 0.5])"
proof -
  have scores: "map relevance_score (sources resp) = map (\<lambda>r. 1 - sr_distance r) rs"
    by (simp add: query_sources_eq [OF assms] source_loop_sources comp_def)
  have asc: "sorted (map sr_distance rs)"
    by (rule similarity_search_sorted [OF assms(4)])
  then have desc: "sorted_wrt (\<ge>) (map (\<lambda>r. 1 - sr_distance r) rs)"
    by (simp add: sorted_wrt_map)
  have ex: "map relevance_score (sources resp) = [0.9, 0.7, 0.5]"
    if "map sr_distance rs = [0.1, 0.3, 0.5]"
  proof -
    have "map (\<lambda>r. 1 - sr_distance r) rs = map (\<lambda>d. 1 - d) (map sr_distance rs)"
      by (simp add: comp_def)
    with that scores show ?thesis by simp
  qed
  from scores asc desc ex show ?thesis by simp
qed

text \<open>
  C6: for a non-empty retrieval result the source list has one entry per retrieved
  chunk, in retrieval order; the document name is the \<open>source\<close> value of the chunk
  metadata, \<open>Unknown\<close> when the key is absent; the content is the chunk text when it
  has at most 200 characters, otherwise its first 200 characters followed by three
  dots.
\<close>

theorem query_sources:
  assumes "wf_system s"
    and "ensure_initialized cfg e s = (Inr (), s1)"
    and "embed_query e question = Inr query_embedding"
    and "fst (similarity_search e (vector_store s1) query_embedding top_k None) = Inr rs"
    and "rs \<noteq> []"
    and "fst (query cfg e s question top_k) = Inr resp"
  shows "length (sources resp) = length rs
       \<and> map document_name (sources resp)
           = map (\<lambda>r. case map_of (sr_metadata r) ''source'' of
                         None \<Rightarrow> PStr ''Unknown'' | Some v \<Rightarrow> v) rs
       \<and> map content (sources resp)
           = map (\<lambda>r. if length (sr_document r) \<le> 200 then sr_document r
                       else take 200 (sr_document r) @ ''...'') rs"
  by (simp add: query_sources_eq [OF assms] source_loop_sources comp_def not_less [symmetric]
      cong: if_cong)

lemma demo_wf: "wf_system demo_system"
  by (simp add: wf_system_def demo_system_def)

lemma demo_ensure: "ensure_initialized cfg e demo_system = (Inr (), demo_system)"
  by (simp add: ensure_initialized_def demo_system_def)

lemma demo_search:
  "similarity_search demo_env (vector_store demo_system) [1] 5 None = (Inr demo_results, vector_store demo_system)"
  by (simp add: similarity_search_def demo_system_def demo_env_def collection_query_def
      format_results_def demo_records_def demo_results_def Let_def upt_rec nat_numeral)

lemma demo_query:
  "fst (query demo_settings demo_env demo_system ''?'' 5) =
     Inr \<lparr>answer = ''An answer.'', sources = snd (source_loop 1 demo_results [] []), context_used = True\<rparr>"
proof -
  have e: "embed_query demo_env ''?'' = Inr [1]" "llm_invoke demo_env = (\<lambda>p. Inr ''An answer.'')"
    by (simp_all add: demo_env_def)
  have n: "demo_results \<noteq> []" by (simp add: demo_results_def)
  have r: "rs_embeddings (rag demo_system) \<noteq> None" "rs_llm (rag demo_system) \<noteq> None"
    by (simp_all add: demo_system_def)
  show ?thesis
    using n r by (auto simp: query_def demo_ensure e demo_search Let_def split: prod.splits)
qed

theorem query_relevance_scores_witness:
  "wf_system demo_system
   \<and> demo_results \<noteq> []
   \<and> map sr_distance demo_results = [0.1, 0.3, 0.5]
   \<and> map relevance_score
         (sources (projr (fst (query demo_settings demo_env demo_system ''?'' 5))))
       = [0.9, 0.7, 0.5]
   \<and> sorted_wrt (\<ge>)
         (map relevance_score
            (sources (projr (fst (query demo_settings demo_env demo_system ''?'' 5)))))"
proof -
  have h3: "embed_query demo_env ''?'' = Inr [1]"
    by (simp add: demo_env_def)
  have h4: "fst (similarity_search demo_env (vector_store demo_system) [1] 5 None)
              = Inr demo_results"
    by (simp add: demo_search)
  have h5: "demo_results \<noteq> []"
    by (simp add: demo_results_def)
  have d: "map sr_distance demo_results = [0.1, 0.3, 0.5]"
    by (simp add: demo_results_def)
  note scores = query_relevance_scores [OF demo_wf demo_ensure h3 h4 h5 demo_query]
  show ?thesis
    using demo_wf h5 d scores
    by (simp add: demo_query demo_results_def)
qed

theorem query_sources_witness:
  "wf_system demo_system
   \<and> length demo_results = 3
   \<and> length (sources (projr (fst (query demo_settings demo_env demo_system ''?'' 5)))) = 3
   \<and> map document_name
         (sources (projr (fst (query demo_settings demo_env demo_system ''?'' 5))))
       = [PStr ''policy.txt'', PStr ''Unknown'', PStr ''policy.txt'']
   \<and> map content (sources (projr (fst (query demo_settings demo_env demo_system ''?'' 5))))
       = [''alpha'', ''beta'', replicate 200 CHR ''x'' @ ''...'']"
proof -
  have h3: "embed_query demo_env ''?'' = Inr [1]"
    by (simp add: demo_env_def)
  have h4: "fst (similarity_search demo_env (vector_store demo_system) [1] 5 None)
              = Inr demo_results"
    by (simp add: demo_search)
  have h5: "demo_results \<noteq> []"
    by (simp add: demo_results_def)
  have l: "length demo_results = 3"
    by (simp add: demo_results_def)
  have n: "map (\<lambda>r. case map_of (sr_metadata r) ''source'' of
                        None \<Rightarrow> PStr ''Unknown'' | Some v \<Rightarrow> v) demo_results
            = [PStr ''policy.txt'', PStr ''Unknown'', PStr ''policy.txt'']"
    by (simp add: demo_results_def)
  have c: "map (\<lambda>r. if length (sr_document r) \<le> 200 then sr_document r
                      else take 200 (sr_document r) @ ''...'') demo_results
            = [''alpha'', ''beta'', replicate 200 CHR ''x'' @ ''...'']"
    by (simp add: demo_results_def)
  note srcs = query_sources [OF demo_wf demo_ensure h3 h4 h5 demo_query]
  show ?thesis
    using demo_wf l srcs n c
    by (simp add: demo_query)
qed

section \<open>The text splitter on short and on blank texts\<close>

lemma strip_empty_iff: "strip s = [] \<longleftrightarrow> list_all is_space s"
proof
  assume "strip s = []"
  then have all: "\<forall>c \<in> set (dropWhile is_space s). is_space c"
    by (simp add: strip_def dropWhile_eq_Nil_conv)
  have "dropWhile is_space s = []"
  proof (rule ccontr)
    assume ne: "dropWhile is_space s \<noteq> []"
    then have "\<not> is_space (hd (dropWhile is_space s))"
      by (rule hd_dropWhile)
    with ne all show False
      by (meson hd_in_set)
  qed
  then show "list_all is_space s"
    by (simp add: dropWhile_eq_Nil_conv list_all_iff)
next
  assume "list_all is_space s"
  then show "strip s = []"
    by (auto simp: strip_def list_all_iff dest: set_dropWhileD)
qed

lemma str_join_empty: "str_join [] xs = concat xs"
  by (induction "[] :: string" xs rule: str_join.induct) auto

lemma re_split_concat:
  "\<exists>p ps. re_split sep t = p # ps \<and> p @ concat (map (\<lambda>q. sep @ q) ps) = t"
proof (induction sep t rule: re_split.induct)
  case (1 sep)
  show ?case by simp
next
  case (2 sep c cs)
  show ?case
  proof (cases "sep \<noteq> [] \<and> starts_with sep (c # cs)")
    case True
    with 2(1) obtain p ps where r: "re_split sep (drop (length sep) (c # cs)) = p # ps"
      and c: "p @ concat (map (\<lambda>q. sep @ q) ps) = drop (length sep) (c # cs)"
      by blast
    from True have "sep @ drop (length sep) (c # cs) = c # cs"
      by (metis append_take_drop_id starts_with_def)
    with True r c show ?thesis by simp
  next
    case False
    with 2(2) obtain p ps where r: "re_split sep cs = p # ps"
      and c: "p @ concat (map (\<lambda>q. sep @ q) ps) = cs"
      by blast
    with False show ?thesis by auto
  qed
qed

lemma concat_filter_nonempty: "concat (filter (\<lambda>s. s \<noteq> []) xs) = concat xs"
  by (induction xs) auto

lemma split_text_with_regex_concat: "concat (split_text_with_regex t sep) = t"
proof (cases "sep = []")
  case True
  then show ?thesis
    by (simp add: split_text_with_regex_def concat_filter_nonempty)
next
  case False
  obtain p ps where "re_split sep t = p # ps" "p @ concat (map (\<lambda>q. sep @ q) ps) = t"
    using re_split_concat by blast
  with False show ?thesis
    by (simp add: split_text_with_regex_def concat_filter_nonempty del: filter.simps)
qed

lemma split_text_with_regex_nonempty: "p \<in> set (split_text_with_regex t sep) \<Longrightarrow> p \<noteq> []"
  by (simp add: split_text_with_regex_def)

lemma sep_if_zero: "sep_if b 0 = 0"
  by (simp add: sep_if_def)

lemma join_docs_empty_sep:
  "join_docs docs [] = (if strip (concat docs) = [] then None else Some (strip (concat docs)))"
  by (simp add: join_docs_def str_join_empty Let_def)

lemma append_doc_blank:
  "\<forall>p \<in> set cur. list_all is_space p \<Longrightarrow> append_doc docs cur [] = docs"
  by (simp add: append_doc_def join_docs_empty_sep strip_empty_iff list_all_iff)

lemma merge_loop_fits:
  assumes "total_len = int (length (concat current_doc))"
    and "int (length (concat current_doc)) + int (length (concat splits)) \<le> chunk_size"
  shows "merge_loop chunk_size chunk_overlap [] splits docs current_doc total_len
           = Inr (append_doc docs (current_doc @ splits) [])"
  using assms
proof (induction splits arbitrary: current_doc total_len)
  case Nil
  then show ?case by simp
next
  case (Cons d ds)
  have "merge_loop chunk_size chunk_overlap [] (d # ds) docs current_doc total_len
          = merge_loop chunk_size chunk_overlap [] ds docs (current_doc @ [d])
              (total_len + int (length d))"
    using Cons.prems by (simp add: sep_if_zero)
  also have "\<dots> = Inr (append_doc docs ((current_doc @ [d]) @ ds) [])"
    using Cons.prems by (intro Cons.IH) simp_all
  finally show ?case by simp
qed

lemma pop_docs_suffix_gen:
  assumes "total_len = int (length (concat current_doc))" and "0 \<le> chunk_overlap"
    and "separator_len = 0"
  shows "\<exists>k. pop_docs chunk_size chunk_overlap separator_len len current_doc total_len
               = Inr (drop k current_doc, int (length (concat (drop k current_doc))))"
  using assms
proof (induction chunk_size chunk_overlap separator_len len current_doc total_len
       rule: pop_docs.induct)
  case (1 chunk_size chunk_overlap separator_len len current_doc total_len)
  show ?case
  proof (cases "total_len > chunk_overlap
         \<or> (total_len + len + sep_if (length current_doc > 0) separator_len > chunk_size
             \<and> total_len > 0)")
    case False
    then have "pop_docs chunk_size chunk_overlap separator_len len current_doc total_len
                 = Inr (current_doc, total_len)"
      by (subst pop_docs.simps) (simp only: if_False)
    with "1.prems"(1)
    have "pop_docs chunk_size chunk_overlap separator_len len current_doc total_len
            = Inr (drop 0 current_doc, int (length (concat (drop 0 current_doc))))"
      by simp
    then show ?thesis by blast
  next
    case True
    with "1.prems"(2) have "total_len > 0" by arith
    with "1.prems" obtain d ds where cur: "current_doc = d # ds"
      by (cases current_doc) auto
    have t: "total_len - (int (length d) + sep_if (1 < length current_doc) separator_len)
               = int (length (concat ds))"
      using "1.prems" cur by (simp add: sep_if_zero)
    from "1.IH" [OF True cur t "1.prems"(2,3)] obtain k where
      "pop_docs chunk_size chunk_overlap separator_len len ds
         (total_len - (int (length d) + sep_if (1 < length current_doc) separator_len))
       = Inr (drop k ds, int (length (concat (drop k ds))))"
      by blast
    moreover from True
    have "pop_docs chunk_size chunk_overlap separator_len len current_doc total_len
        = (case current_doc of
             [] \<Rightarrow> Inl (IndexError ''list index out of range'')
           | d # ds \<Rightarrow>
               pop_docs chunk_size chunk_overlap separator_len len ds
                 (total_len - (int (length d) + sep_if (length current_doc > 1) separator_len)))"
      by (subst pop_docs.simps) (simp only: if_True)
    ultimately
    have "pop_docs chunk_size chunk_overlap separator_len len current_doc total_len
        = Inr (drop (Suc k) current_doc, int (length (concat (drop (Suc k) current_doc))))"
      using cur by simp
    then show ?thesis by blast
  qed
qed

lemma pop_docs_suffix:
  assumes "total_len = int (length (concat current_doc))" and "0 \<le> chunk_overlap"
  shows "\<exists>k. pop_docs chunk_size chunk_overlap 0 len current_doc total_len
               = Inr (drop k current_doc, int (length (concat (drop k current_doc))))"
  using assms by (intro pop_docs_suffix_gen) simp_all

lemma merge_loop_blank:
  assumes "\<forall>p \<in> set splits. list_all is_space p"
    and "\<forall>p \<in> set current_doc. list_all is_space p"
    and "total_len = int (length (concat current_doc))"
    and "0 \<le> chunk_overlap"
  shows "merge_loop chunk_size chunk_overlap [] splits docs current_doc total_len = Inr docs"
  using assms
proof (induction splits arbitrary: docs current_doc total_len)
  case Nil
  then show ?case by (simp add: append_doc_blank)
next
  case (Cons d ds)
  show ?case
  proof (cases "total_len + int (length d) + sep_if (length current_doc > 0) 0 > chunk_size
                \<and> length current_doc > 0")
    case True
    obtain k where pop: "pop_docs chunk_size chunk_overlap 0 (int (length d)) current_doc total_len
               = Inr (drop k current_doc, int (length (concat (drop k current_doc))))"
      using pop_docs_suffix [OF Cons.prems(3,4)] by blast
    have blank: "\<forall>p \<in> set (drop k current_doc @ [d]). list_all is_space p"
      using Cons.prems(1,2) by (auto dest: in_set_dropD)
    have "merge_loop chunk_size chunk_overlap [] (d # ds) docs current_doc total_len
            = merge_loop chunk_size chunk_overlap [] ds (append_doc docs current_doc [])
                (drop k current_doc @ [d])
                (int (length (concat (drop k current_doc))) + int (length d))"
      using True pop by (simp add: sep_if_zero)
    also have "\<dots> = Inr (append_doc docs current_doc [])"
      using Cons.prems(1,4) blank by (intro Cons.IH) simp_all
    finally show ?thesis
      using Cons.prems(2) by (simp add: append_doc_blank)
  next
    case False
    have blank: "\<forall>p \<in> set (current_doc @ [d]). list_all is_space p"
      using Cons.prems(1,2) by auto
    have "merge_loop chunk_size chunk_overlap [] (d # ds) docs current_doc total_len
            = merge_loop chunk_size chunk_overlap [] ds docs (current_doc @ [d])
                (total_len + int (length d))"
      using False by (auto simp: sep_if_zero)
    also have "\<dots> = Inr docs"
      using Cons.prems(1,3,4) blank by (intro Cons.IH) simp_all
    finally show ?thesis .
  qed
qed

lemma flush_good_fits:
  assumes "int (length (concat good)) \<le> chunk_size"
  shows "flush_good chunk_size chunk_overlap good final_chunks
           = Inr (final_chunks @ (if strip (concat good) = [] then [] else [strip (concat good)]))"
proof (cases "good = []")
  case True
  then show ?thesis
    by (simp add: flush_good_def strip_def)
next
  case False
  have "merge_splits chunk_size chunk_overlap good [] = Inr (append_doc [] good [])"
    unfolding merge_splits_def using assms merge_loop_fits [of 0 "[]" good chunk_size chunk_overlap "[]"]
    by simp
  with False show ?thesis
    by (simp add: flush_good_def append_doc_def join_docs_empty_sep)
qed

lemma flush_good_blank:
  assumes "\<forall>p \<in> set good. list_all is_space p" and "0 \<le> chunk_overlap"
  shows "flush_good chunk_size chunk_overlap good final_chunks = Inr final_chunks"
proof -
  have "merge_splits chunk_size chunk_overlap good [] = Inr []"
    unfolding merge_splits_def using assms by (intro merge_loop_blank) simp_all
  then show ?thesis
    by (simp add: flush_good_def)
qed

lemma split_loop_small:
  "\<forall>p \<in> set ss. int (length p) < chunk_size \<Longrightarrow>
     split_loop chunk_size chunk_overlap recurse ss good final_chunks
       = flush_good chunk_size chunk_overlap (good @ ss) final_chunks"
  by (induction ss arbitrary: good) simp_all

lemma split_loop_blank:
  assumes "\<forall>p \<in> set ss. list_all is_space p"
    and "\<forall>p \<in> set good. list_all is_space p"
    and "0 \<le> chunk_overlap"
    and "recurse = None \<Longrightarrow> \<forall>p \<in> set ss. int (length p) < chunk_size"
    and "\<And>f p. recurse = Some f \<Longrightarrow> p \<in> set ss \<Longrightarrow> list_all is_space p \<Longrightarrow> f p = Inr []"
  shows "split_loop chunk_size chunk_overlap recurse ss good final_chunks = Inr final_chunks"
  using assms
proof (induction ss arbitrary: good final_chunks)
  case Nil
  then show ?case by (simp add: flush_good_blank)
next
  case (Cons s ss)
  show ?case
  proof (cases "int (length s) < chunk_size")
    case True
    have "split_loop chunk_size chunk_overlap recurse ss (good @ [s]) final_chunks = Inr final_chunks"
      using Cons.prems by (intro Cons.IH) auto
    with True show ?thesis by simp
  next
    case False
    with Cons.prems(4) obtain f where f: "recurse = Some f"
      by (cases recurse) auto
    have fs: "f s = Inr []"
      using Cons.prems(1) by (intro Cons.prems(5) [OF f]) simp_all
    have fl: "flush_good chunk_size chunk_overlap good final_chunks = Inr final_chunks"
      using Cons.prems(2,3) by (rule flush_good_blank)
    have "split_loop chunk_size chunk_overlap recurse ss [] final_chunks = Inr final_chunks"
      using Cons.prems by (intro Cons.IH) auto
    with False f fs fl show ?thesis by simp
  qed
qed

lemma find_separator_cases:
  assumes "[] \<in> set seps"
  shows "\<exists>sep rest. find_separator seps t = Some (sep, rest)
            \<and> ((sep = [] \<and> rest = []) \<or> (sep \<noteq> [] \<and> [] \<in> set rest))"
  using assms by (induction seps) auto

lemma pieces_small_or_whole:
  assumes "concat ps = t" and "\<forall>p \<in> set ps. p \<noteq> []" and "int (length t) \<le> chunk_size"
  shows "(\<forall>p \<in> set ps. int (length p) < chunk_size) \<or> ps = [t]"
proof (cases "\<forall>p \<in> set ps. int (length p) < chunk_size")
  case True
  then show ?thesis by simp
next
  case False
  then obtain p where p: "p \<in> set ps" "chunk_size \<le> int (length p)"
    by auto
  then obtain xs ys where ps: "ps = xs @ p # ys"
    by (meson split_list)
  with assms(1) have len: "length t = length (concat xs) + length p + length (concat ys)"
    by auto
  with assms(3) p(2) have "length (concat xs) = 0" "length (concat ys) = 0"
    by linarith+
  with assms(2) ps have "xs = []" "ys = []"
    by (cases xs; auto)+
  with ps assms(1) show ?thesis by simp
qed

lemma split_text_rec_short:
  assumes "[] \<in> set seps" and "2 \<le> chunk_size" and "int (length t) \<le> chunk_size"
  shows "split_text_rec chunk_size chunk_overlap seps t
           = Inr (if strip t = [] then [] else [strip t])"
  using assms
proof (induction chunk_size chunk_overlap seps t rule: split_text_rec.induct)
  case (1 chunk_size chunk_overlap separators t)
  from "1.prems"(1) have ne: "separators \<noteq> []" by auto
  obtain sep rest where fs: "find_separator separators t = Some (sep, rest)"
    and cases: "(sep = [] \<and> rest = []) \<or> (sep \<noteq> [] \<and> [] \<in> set rest)"
    using find_separator_cases [OF "1.prems"(1)] by blast
  then have ch: "choose_separator separators t = (sep, rest)"
    by (simp add: choose_separator_def)
  let ?ps = "split_text_with_regex t sep"
  let ?rec = "if rest = [] then None else Some (\<lambda>s. split_text_rec chunk_size chunk_overlap rest s)"
  have unfold: "split_text_rec chunk_size chunk_overlap separators t
                  = split_loop chunk_size chunk_overlap ?rec ?ps [] []"
    using ne ch by (subst split_text_rec.simps) simp
  have cc: "concat ?ps = t"
    by (rule split_text_with_regex_concat)
  have nonempty: "\<forall>p \<in> set ?ps. p \<noteq> []"
    by (auto dest: split_text_with_regex_nonempty)
  have small: "split_loop chunk_size chunk_overlap ?rec ?ps [] []
                  = Inr (if strip t = [] then [] else [strip t])"
    if "\<forall>p \<in> set ?ps. int (length p) < chunk_size"
    using that "1.prems"(3) cc by (simp add: split_loop_small flush_good_fits)
  from cases show ?case
  proof
    assume c: "sep = [] \<and> rest = []"
    then have "?ps = map (\<lambda>c. [c]) t"
      by (simp add: split_text_with_regex_def)
    with "1.prems"(2) have "\<forall>p \<in> set ?ps. int (length p) < chunk_size"
      by auto
    with small unfold show ?thesis by simp
  next
    assume c: "sep \<noteq> [] \<and> [] \<in> set rest"
    then have rest: "rest \<noteq> []" by auto
    from pieces_small_or_whole [OF cc nonempty "1.prems"(3)]
    show ?thesis
    proof
      assume "\<forall>p \<in> set ?ps. int (length p) < chunk_size"
      with small unfold show ?thesis by simp
    next
      assume whole: "?ps = [t]"
      have ih: "split_text_rec chunk_size chunk_overlap rest t
                  = Inr (if strip t = [] then [] else [strip t])"
        using "1.IH" [OF ne, of t] ch rest c "1.prems"(2,3) by simp
      show ?thesis
      proof (cases "int (length t) < chunk_size")
        case True
        with whole small unfold show ?thesis by simp
      next
        case False
        with whole rest ih unfold show ?thesis
          by (simp add: flush_good_def)
      qed
    qed
  qed
qed

lemma split_text_rec_blank:
  assumes "[] \<in> set seps" and "2 \<le> chunk_size" and "0 \<le> chunk_overlap"
    and "list_all is_space t"
  shows "split_text_rec chunk_size chunk_overlap seps t = Inr []"
  using assms
proof (induction chunk_size chunk_overlap seps t rule: split_text_rec.induct)
  case (1 chunk_size chunk_overlap separators t)
  from "1.prems"(1) have ne: "separators \<noteq> []" by auto
  obtain sep rest where fs: "find_separator separators t = Some (sep, rest)"
    and cases: "(sep = [] \<and> rest = []) \<or> (sep \<noteq> [] \<and> [] \<in> set rest)"
    using find_separator_cases [OF "1.prems"(1)] by blast
  then have ch: "choose_separator separators t = (sep, rest)"
    by (simp add: choose_separator_def)
  let ?ps = "split_text_with_regex t sep"
  let ?rec = "if rest = [] then None else Some (\<lambda>s. split_text_rec chunk_size chunk_overlap rest s)"
  have unfold: "split_text_rec chunk_size chunk_overlap separators t
                  = split_loop chunk_size chunk_overlap ?rec ?ps [] []"
    using ne ch by (subst split_text_rec.simps) simp
  have "concat ?ps = t"
    by (rule split_text_with_regex_concat)
  with "1.prems"(4) have "list_all is_space (concat ?ps)"
    by simp
  then have blank: "\<forall>p \<in> set ?ps. list_all is_space p"
    by (auto simp: list_all_iff)
  have "split_loop chunk_size chunk_overlap ?rec ?ps [] [] = Inr []"
  proof (rule split_loop_blank [OF blank _ "1.prems"(3)])
    show "\<forall>p \<in> set []. list_all is_space p" by simp
  next
    assume "?rec = None"
    then have "rest = []" by (simp split: if_splits)
    with cases have "sep = []" by auto
    then have "?ps = map (\<lambda>c. [c]) t"
      by (simp add: split_text_with_regex_def)
    with "1.prems"(2) show "\<forall>p \<in> set ?ps. int (length p) < chunk_size"
      by auto
  next
    fix f p
    assume f: "?rec = Some f" and p: "list_all is_space p"
    then have rest: "rest \<noteq> []" and fdef: "f = (\<lambda>s. split_text_rec chunk_size chunk_overlap rest s)"
      by (auto split: if_splits)
    with cases have "[] \<in> set rest" by auto
    with "1.IH" [OF ne, of p] ch rest "1.prems"(2,3) p fdef
    show "f p = Inr []" by simp
  qed
  with unfold show ?case by simp
qed

lemma default_separators_empty: "[] \<in> set default_separators"
  by (simp add: default_separators_def)

section \<open>Chunking\<close>

lemma new_text_splitter_fields:
  "new_text_splitter chunk_size chunk_overlap seps = Inr sp \<Longrightarrow>
     ts_chunk_size sp = chunk_size \<and> ts_chunk_overlap sp = chunk_overlap \<and> ts_separators sp = seps"
  by (auto simp: new_text_splitter_def split: if_splits)

lemma chunk_text_result:
  assumes "splitter_cached dp"
  shows "fst (chunk_text dp t chunk_size chunk_overlap)
           = (case new_text_splitter chunk_size chunk_overlap default_separators of
                Inl err \<Rightarrow> Inl err
              | Inr sp \<Rightarrow> split_text sp t)"
proof (cases "dp_text_splitter dp = None
         \<or> ts_chunk_size (the (dp_text_splitter dp)) \<noteq> chunk_size
         \<or> ts_chunk_overlap (the (dp_text_splitter dp)) \<noteq> chunk_overlap")
  case True
  then show ?thesis
    by (simp add: chunk_text_def split: sum.splits)
next
  case False
  then obtain sp where sp: "dp_text_splitter dp = Some sp" "ts_chunk_size sp = chunk_size"
      "ts_chunk_overlap sp = chunk_overlap"
    by auto
  with assms have "new_text_splitter chunk_size chunk_overlap default_separators = Inr sp"
    by (simp add: splitter_cached_def)
  with sp show ?thesis
    by (simp add: chunk_text_def)
qed

lemma chunk_text_cached:
  assumes "splitter_cached dp"
  shows "splitter_cached (snd (chunk_text dp t chunk_size chunk_overlap))"
  using assms
  by (auto simp: chunk_text_def splitter_cached_def split: sum.splits
      dest: new_text_splitter_fields)

lemma chunk_calls_cached:
  "splitter_cached dp \<Longrightarrow> splitter_cached (chunk_calls dp calls)"
  by (induction dp calls rule: chunk_calls.induct) (simp_all add: chunk_text_cached)

lemma init_cached: "splitter_cached document_processor_init"
  by (simp add: splitter_cached_def document_processor_init_def)

text \<open>
  C7: chunking is deterministic.  Whatever calls of \<open>chunk_text\<close> the shared processor
  has served before, with whatever texts and sizes (so whatever splitter it has
  cached), a call returns the same chunks, or the same error, for the same text, chunk
  size and chunk overlap.
\<close>

theorem chunk_text_deterministic:
  "fst (chunk_text (chunk_calls document_processor_init calls1) t chunk_size chunk_overlap)
     = fst (chunk_text (chunk_calls document_processor_init calls2) t chunk_size chunk_overlap)"
proof -
  let ?fresh = "case new_text_splitter chunk_size chunk_overlap default_separators of
                  Inl err \<Rightarrow> Inl err
                | Inr sp \<Rightarrow> split_text sp t"
  have "splitter_cached (chunk_calls document_processor_init calls)" for calls
    by (intro chunk_calls_cached init_cached)
  then have "fst (chunk_text (chunk_calls document_processor_init calls) t chunk_size
                    chunk_overlap) = ?fresh" for calls
    by (rule chunk_text_result)
  then show ?thesis
    by simp
qed

theorem chunk_text_deterministic_witness:
  "fst (chunk_text (chunk_calls document_processor_init [(''a b c'', 2, 1), (''x'', 1000, 200)])
          ''hello world'' 1000 200)
     = fst (chunk_text (chunk_calls document_processor_init []) ''hello world'' 1000 200)"
  by (rule chunk_text_deterministic)

lemma chunk_text_valid:
  assumes "splitter_cached dp" and "0 < chunk_overlap" and "chunk_overlap < chunk_size"
  shows "fst (chunk_text dp t chunk_size chunk_overlap)
           = split_text_rec chunk_size chunk_overlap default_separators t"
  using assms(2,3)
  by (simp add: chunk_text_result [OF assms(1)] new_text_splitter_def split_text_def)

lemma chunk_text_one_chunk:
  assumes "splitter_cached dp" and "0 < chunk_overlap" and "chunk_overlap < chunk_size"
    and "\<not> list_all is_space t" and "int (length t) \<le> chunk_size"
  shows "fst (chunk_text dp t chunk_size chunk_overlap) = Inr [strip t]"
proof -
  have "split_text_rec chunk_size chunk_overlap default_separators t
          = Inr (if strip t = [] then [] else [strip t])"
    using assms(2,3,5) by (intro split_text_rec_short default_separators_empty) simp_all
  with assms(4) show ?thesis
    by (simp add: chunk_text_valid [OF assms(1-3)] strip_empty_iff)
qed

lemma chunk_text_no_chunk:
  assumes "splitter_cached dp" and "0 < chunk_overlap" and "chunk_overlap < chunk_size"
    and "list_all is_space t"
  shows "fst (chunk_text dp t chunk_size chunk_overlap) = Inr []"
proof -
  have "split_text_rec chunk_size chunk_overlap default_separators t = Inr []"
    using assms(2-4) by (intro split_text_rec_blank default_separators_empty) simp_all
  then show ?thesis
    by (simp add: chunk_text_valid [OF assms(1-3)])
qed

text \<open>
  C8, amended: for a chunk overlap that is positive and smaller than the chunk size, a
  text with at least one character that is not whitespace and with at most
  \<open>chunk_size\<close> characters yields exactly one chunk, the text stripped of surrounding
  whitespace; an empty or whitespace-only text of any length yields no chunk.
\<close>

theorem chunk_text_short_or_blank:
  assumes "0 < chunk_overlap" and "chunk_overlap < chunk_size"
  shows "(\<not> list_all is_space t \<and> int (length t) \<le> chunk_size \<longrightarrow>
            fst (chunk_text (chunk_calls document_processor_init calls) t chunk_size chunk_overlap)
              = Inr [strip t])
       \<and> (list_all is_space t \<longrightarrow>
            fst (chunk_text (chunk_calls document_processor_init calls) t chunk_size chunk_overlap)
              = Inr [])"
  using assms
  by (simp add: chunk_text_one_chunk chunk_text_no_chunk chunk_calls_cached init_cached)

lemma strip_hello: "strip (''  hello world '' @ newline) = ''hello world''"
  by (simp add: strip_def is_space_def newline_def)

theorem chunk_text_short_or_blank_witness:
  "fst (chunk_text (chunk_calls document_processor_init [(''a b c'', 2, 1)])
          (''  hello world '' @ newline) 1000 200) = Inr [''hello world'']
   \<and> fst (chunk_text (chunk_calls document_processor_init [(''a b c'', 2, 1)])
          ('' '' @ newline) 1000 200) = Inr []"
proof -
  have v: "(0::int) < 200" "(200::int) < 1000"
    by simp_all
  have a: "\<not> list_all is_space (''  hello world '' @ newline)"
    by (simp add: is_space_def)
  have b: "list_all is_space ('' '' @ newline)"
    by (simp add: is_space_def newline_def)
  have l: "int (length (''  hello world '' @ newline)) \<le> 1000"
    by (simp add: newline_def)
  from a l chunk_text_short_or_blank [OF v, of "''  hello world '' @ newline" "[(''a b c'', 2, 1)]"]
  have "fst (chunk_text (chunk_calls document_processor_init [(''a b c'', 2, 1)])
          (''  hello world '' @ newline) 1000 200) = Inr [strip (''  hello world '' @ newline)]"
    by blast
  then have one: "fst (chunk_text (chunk_calls document_processor_init [(''a b c'', 2, 1)])
          (''  hello world '' @ newline) 1000 200) = Inr [''hello world'']"
    by (simp only: strip_hello)
  from b chunk_text_short_or_blank [OF v, of "'' '' @ newline" "[(''a b c'', 2, 1)]"]
  have none: "fst (chunk_text (chunk_calls document_processor_init [(''a b c'', 2, 1)])
          ('' '' @ newline) 1000 200) = Inr []"
    by blast
  from one none show ?thesis
    by (rule conjI)
qed

text \<open>
  C8 as stated fails: the text of one blank is not empty and no longer than the chunk
  size, and it yields no chunk instead of one.
\<close>

theorem chunk_text_blank_counterexample:
  "'' '' \<noteq> [] \<and> int (length '' '') \<le> 1000
   \<and> fst (chunk_text document_processor_init '' '' 1000 200) = Inr []"
  using chunk_text_no_chunk [OF init_cached, of 200 1000 "'' ''"]
  by (simp add: is_space_def)

section \<open>Ingestion\<close>

lemma map_of_dict_merge_absent:
  "map_of e k = None \<Longrightarrow> map_of (dict_merge d e) k = map_of d k"
  unfolding dict_merge_def
proof (induction e arbitrary: d)
  case Nil
  then show ?case by simp
next
  case (Cons p e)
  obtain a b where p: "p = (a, b)" by (cases p)
  with Cons.prems have "a \<noteq> k" "map_of e k = None"
    by (auto split: if_splits)
  with Cons.IH [of "AList.update a b d"] p show ?case
    by (simp add: update_conv')
qed

lemma map_of_dict_merge_present:
  "distinct (map fst e) \<Longrightarrow> map_of e k = Some v \<Longrightarrow> map_of (dict_merge d e) k = Some v"
  unfolding dict_merge_def
proof (induction e arbitrary: d)
  case Nil
  then show ?case by simp
next
  case (Cons p e)
  obtain a b where p: "p = (a, b)" by (cases p)
  show ?case
  proof (cases "a = k")
    case True
    with Cons.prems p have "b = v" and "map_of e k = None"
      by (auto simp: map_of_eq_None_iff)
    then have "map_of (dict_merge (AList.update a b d) e) k = map_of (AList.update a b d) k"
      by (intro map_of_dict_merge_absent)
    with True \<open>b = v\<close> p show ?thesis
      by (simp add: dict_merge_def update_conv')
  next
    case False
    with Cons.prems p have "distinct (map fst e)" "map_of e k = Some v"
      by auto
    with Cons.IH [of "AList.update a b d"] p show ?thesis
      by simp
  qed
qed

lemma chunk_loop_closed:
  "chunk_loop doc_id dd md n i chunks ids mds =
     (ids @ map (\<lambda>j. doc_id @ ''_chunk_'' @ str_of_nat j) [i ..< i + length chunks],
      mds @ map (\<lambda>j. dict_merge
                        [(''source'', PStr (dd_filename dd)),
                         (''document_id'', PStr doc_id),
                         (''chunk_index'', PInt (int j)),
                         (''total_chunks'', PInt (int n)),
                         (''file_type'', PStr (dd_file_type dd))]
                        md) [i ..< i + length chunks])"
proof (induction chunks arbitrary: i ids mds)
  case Nil
  then show ?case by simp
next
  case (Cons c chunks)
  have "[i ..< i + length (c # chunks)] = i # [Suc i ..< Suc i + length chunks]"
    by (simp add: upt_conv_Cons del: upt_Suc)
  with Cons.IH [of "Suc i"] show ?case
    by simp
qed

lemma collection_add_records:
  assumes "collection_add e c docs embs mds ids = Inr c'"
  shows "length docs = length ids" and "length embs = length ids" and "length mds = length ids"
    and "\<exists>new. coll_records c' = coll_records c @ new \<and> map rec_id new = ids
           \<and> map rec_document new = docs \<and> map rec_metadata new = mds"
proof -
  from assms show l: "length docs = length ids" "length embs = length ids" "length mds = length ids"
    by (auto simp: collection_add_def split: option.splits if_splits)
  let ?new = "map (\<lambda>(i, d, v, m). \<lparr>rec_id = i, rec_document = d, rec_embedding = v,
                                       rec_metadata = m\<rparr>)
                     (zip ids (zip docs (zip embs mds)))"
  from assms have "coll_records c' = coll_records c @ ?new"
    by (auto simp: collection_add_def split: option.splits if_splits)
  moreover from l have "map rec_id ?new = ids" "map rec_document ?new = docs"
      "map rec_metadata ?new = mds"
    by (auto intro!: nth_equalityI)
  ultimately show "\<exists>new. coll_records c' = coll_records c @ new \<and> map rec_id new = ids
           \<and> map rec_document new = docs \<and> map rec_metadata new = mds"
    by blast
qed

lemma add_document_success:
  assumes "wf_system s"
    and "ensure_initialized cfg e s = (Inr (), s1)"
    and "process_file e path = Inr dd"
    and "fst (chunk_text (document_processor s1) (dd_text dd) (cfg_chunk_size cfg)
               (cfg_chunk_overlap cfg)) = Inr chunks"
    and "add_document cfg e s path md = (Inr doc_id, s')"
  shows "\<exists>c embs c'.
           chunks \<noteq> [] \<and> doc_id = uuid4 e
           \<and> vs_collection (vector_store s1) = Some c
           \<and> collection_add e c chunks embs
                 (snd (chunk_loop doc_id dd md (length chunks) 0 chunks [] []))
                 (fst (chunk_loop doc_id dd md (length chunks) 0 chunks [] [])) = Inr c'
           \<and> vs_collection (vector_store s') = Some c'
           \<and> documents_metadata (rag s')
               = AList.update doc_id (document_entry e doc_id dd (length chunks) md)
                   (documents_metadata (rag s))"
proof -
  obtain dp where ch: "chunk_text (document_processor s1) (dd_text dd) (cfg_chunk_size cfg)
               (cfg_chunk_overlap cfg) = (Inr chunks, dp)"
    using assms(4) by (cases "chunk_text (document_processor s1) (dd_text dd) (cfg_chunk_size cfg)
               (cfg_chunk_overlap cfg)") simp
  from ensure_initialized_ok [OF assms(1,2)]
  have i: "rs_embeddings (rag s1) \<noteq> None" "vs_initialized (vector_store s1)"
      "vs_collection (vector_store s1) \<noteq> None"
      "documents_metadata (rag s1) = documents_metadata (rag s)"
    by simp_all
  then obtain c where c: "vs_collection (vector_store s1) = Some c"
    by auto
  from assms(5) have ne: "chunks \<noteq> []"
    by (auto simp: add_document_def assms(2,3) ch Let_def split: if_splits)
  from assms(5) ne i(1) obtain embs where em: "embed_documents e chunks = Inr embs"
    by (auto simp: add_document_def assms(2,3) ch Let_def split: if_splits sum.splits)
  let ?ids = "fst (chunk_loop (uuid4 e) dd md (length chunks) 0 chunks [] [])"
  let ?mds = "snd (chunk_loop (uuid4 e) dd md (length chunks) 0 chunks [] [])"
  have ad: "add_document cfg e s path md =
     (case add_documents e (vector_store s1) chunks embs ?mds ?ids of
        (Inl err, vs) \<Rightarrow> (Inl err, s1\<lparr>document_processor := dp, vector_store := vs\<rparr>)
      | (Inr u, vs) \<Rightarrow>
          (Inr (uuid4 e),
           s1\<lparr>document_processor := dp, vector_store := vs,
              rag := (rag s1)\<lparr>documents_metadata :=
                       AList.update (uuid4 e) (document_entry e (uuid4 e) dd (length chunks) md)
                         (documents_metadata (rag s1))\<rparr>\<rparr>))"
    using ne i(1)
    by (auto simp: add_document_def assms(2,3) ch em Let_def split: prod.splits sum.splits)
  have vs: "add_documents e (vector_store s1) chunks embs ?mds ?ids =
     (case collection_add e c chunks embs ?mds ?ids of
        Inl err \<Rightarrow> (Inl err, vector_store s1)
      | Inr c' \<Rightarrow> (Inr (), (vector_store s1)\<lparr>vs_collection := Some c'\<rparr>))"
    using i(2) c by (simp add: add_documents_def)
  from assms(5) ad vs obtain c' where
    "collection_add e c chunks embs ?mds ?ids = Inr c'" "doc_id = uuid4 e"
    "s' = s1\<lparr>document_processor := dp, vector_store := (vector_store s1)\<lparr>vs_collection := Some c'\<rparr>,
              rag := (rag s1)\<lparr>documents_metadata :=
                       AList.update (uuid4 e) (document_entry e (uuid4 e) dd (length chunks) md)
                         (documents_metadata (rag s1))\<rparr>\<rparr>"
    by (auto split: sum.splits)
  with ne c i(4) show ?thesis
    by auto
qed

lemma add_document_new_records:
  assumes "wf_system s"
    and "ensure_initialized cfg e s = (Inr (), s1)"
    and "process_file e path = Inr dd"
    and "fst (chunk_text (document_processor s1) (dd_text dd) (cfg_chunk_size cfg)
               (cfg_chunk_overlap cfg)) = Inr chunks"
    and "add_document cfg e s path md = (Inr doc_id, s')"
  shows "\<exists>new. indexed_records s' = indexed_records s1 @ new
           \<and> map rec_id new = map (\<lambda>i. doc_id @ ''_chunk_'' @ str_of_nat i) [0 ..< length chunks]
           \<and> map rec_document new = chunks
           \<and> map rec_metadata new
               = map (\<lambda>i. dict_merge
                        [(''source'', PStr (dd_filename dd)),
                         (''document_id'', PStr doc_id),
                         (''chunk_index'', PInt (int i)),
                         (''total_chunks'', PInt (int (length chunks))),
                         (''file_type'', PStr (dd_file_type dd))]
                        md) [0 ..< length chunks]"
proof -
  from add_document_success [OF assms] obtain c embs c' where
    c: "vs_collection (vector_store s1) = Some c"
    and add: "collection_add e c chunks embs
                 (snd (chunk_loop doc_id dd md (length chunks) 0 chunks [] []))
                 (fst (chunk_loop doc_id dd md (length chunks) 0 chunks [] [])) = Inr c'"
    and c': "vs_collection (vector_store s') = Some c'"
    by blast
  from collection_add_records(4) [OF add] obtain new where
    "coll_records c' = coll_records c @ new"
    "map rec_id new = fst (chunk_loop doc_id dd md (length chunks) 0 chunks [] [])"
    "map rec_document new = chunks"
    "map rec_metadata new = snd (chunk_loop doc_id dd md (length chunks) 0 chunks [] [])"
    by blast
  with c c' show ?thesis
    by (simp add: indexed_records_def chunk_loop_closed)
qed

lemma drop_new: "xs = ys @ new \<Longrightarrow> drop (length ys) xs = new \<and> take (length ys) xs = ys"
  by simp

text \<open>
  C4, amended: a successful ingestion of \<open>n\<close> chunks, whatever the caller's metadata,
  leaves the old index records in place and appends \<open>n\<close> records; the id of the \<open>i\<close>-th
  is the document id followed by \<open>_chunk_\<close> and \<open>i\<close>, for \<open>i\<close> from 0 to \<open>n - 1\<close>, and
  its text is the \<open>i\<close>-th chunk.  The metadata of the \<open>i\<close>-th record has
  \<open>chunk_index = i\<close> when the caller's metadata has no key \<open>chunk_index\<close>, and
  \<open>total_chunks = n\<close> when it has no key \<open>total_chunks\<close>; the registry entry of the
  document has \<open>chunks_count = n\<close> when it has no key \<open>chunks_count\<close>.
\<close>

theorem add_document_chunk_records:
  assumes "wf_system s"
    and "ensure_initialized cfg e s = (Inr (), s1)"
    and "process_file e path = Inr dd"
    and "fst (chunk_text (document_processor s1) (dd_text dd) (cfg_chunk_size cfg)
               (cfg_chunk_overlap cfg)) = Inr chunks"
    and "add_document cfg e s path md = (Inr doc_id, s')"
  shows "take (length (indexed_records s1)) (indexed_records s') = indexed_records s1
       \<and> map rec_id (drop (length (indexed_records s1)) (indexed_records s'))
           = map (\<lambda>i. doc_id @ ''_chunk_'' @ str_of_nat i) [0 ..< length chunks]
       \<and> map rec_document (drop (length (indexed_records s1)) (indexed_records s')) = chunks
       \<and> (map_of md ''chunk_index'' = None \<longrightarrow>
            map (\<lambda>r. map_of (rec_metadata r) ''chunk_index'')
              (drop (length (indexed_records s1)) (indexed_records s'))
            = map (\<lambda>i. Some (PInt (int i))) [0 ..< length chunks])
       \<and> (map_of md ''total_chunks'' = None \<longrightarrow>
            map (\<lambda>r. map_of (rec_metadata r) ''total_chunks'')
              (drop (length (indexed_records s1)) (indexed_records s'))
            = replicate (length chunks) (Some (PInt (int (length chunks)))))
       \<and> (map_of md ''chunks_count'' = None \<longrightarrow>
            (case map_of (documents_metadata (rag s')) doc_id of
               None \<Rightarrow> False
             | Some d \<Rightarrow> map_of d ''chunks_count'' = Some (PInt (int (length chunks)))))"
proof -
  from add_document_new_records [OF assms] obtain new where
    new: "indexed_records s' = indexed_records s1 @ new"
    and ids: "map rec_id new = map (\<lambda>i. doc_id @ ''_chunk_'' @ str_of_nat i) [0 ..< length chunks]"
    and docs: "map rec_document new = chunks"
    and mds: "map rec_metadata new
               = map (\<lambda>i. dict_merge
                        [(''source'', PStr (dd_filename dd)),
                         (''document_id'', PStr doc_id),
                         (''chunk_index'', PInt (int i)),
                         (''total_chunks'', PInt (int (length chunks))),
                         (''file_type'', PStr (dd_file_type dd))]
                        md) [0 ..< length chunks]"
    by blast
  have d: "drop (length (indexed_records s1)) (indexed_records s') = new"
    and t: "take (length (indexed_records s1)) (indexed_records s') = indexed_records s1"
    using drop_new [OF new] by simp_all
  have ci: "map (\<lambda>r. map_of (rec_metadata r) ''chunk_index'') new
          = map (\<lambda>i. Some (PInt (int i))) [0 ..< length chunks]"
    if absent: "map_of md ''chunk_index'' = None"
  proof -
    have "map (\<lambda>r. map_of (rec_metadata r) ''chunk_index'') new
            = map (\<lambda>m. map_of m ''chunk_index'') (map rec_metadata new)"
      by (simp add: comp_def)
    also have "\<dots> = map (\<lambda>i. Some (PInt (int i))) [0 ..< length chunks]"
      by (simp add: mds comp_def map_of_dict_merge_absent [OF absent])
    finally show ?thesis .
  qed
  have tc: "map (\<lambda>r. map_of (rec_metadata r) ''total_chunks'') new
          = replicate (length chunks) (Some (PInt (int (length chunks))))"
    if absent: "map_of md ''total_chunks'' = None"
  proof -
    have "map (\<lambda>r. map_of (rec_metadata r) ''total_chunks'') new
            = map (\<lambda>m. map_of m ''total_chunks'') (map rec_metadata new)"
      by (simp add: comp_def)
    also have "\<dots> = replicate (length chunks) (Some (PInt (int (length chunks))))"
      by (simp add: mds comp_def map_of_dict_merge_absent [OF absent] map_replicate_const)
    finally show ?thesis .
  qed
  from add_document_success [OF assms]
  have "documents_metadata (rag s')
          = AList.update doc_id (document_entry e doc_id dd (length chunks) md)
              (documents_metadata (rag s))"
    by blast
  then have reg: "map_of (documents_metadata (rag s')) doc_id
                    = Some (document_entry e doc_id dd (length chunks) md)"
    by (simp add: update_conv')
  have cc: "map_of (document_entry e doc_id dd (length chunks) md) ''chunks_count''
              = Some (PInt (int (length chunks)))"
    if absent: "map_of md ''chunks_count'' = None"
    by (simp add: document_entry_def map_of_dict_merge_absent [OF absent])
  from t ids docs ci tc reg cc show ?thesis
    unfolding d by simp
qed

text \<open>
  C10: in a successful ingestion, a key of the caller's metadata dictionary has the
  caller's value in the metadata of every chunk record the ingestion stores, also when
  the orchestrator sets the same key (\<open>source\<close>, \<open>document_id\<close>, \<open>chunk_index\<close>,
  \<open>total_chunks\<close>, \<open>file_type\<close>): the caller's dictionary is merged last.
\<close>

theorem caller_metadata_overrides:
  assumes "wf_system s"
    and "ensure_initialized cfg e s = (Inr (), s1)"
    and "process_file e path = Inr dd"
    and "fst (chunk_text (document_processor s1) (dd_text dd) (cfg_chunk_size cfg)
               (cfg_chunk_overlap cfg)) = Inr chunks"
    and "add_document cfg e s path md = (Inr doc_id, s')"
    and "distinct (map fst md)"
    and "map_of md k = Some v"
  shows "length (drop (length (indexed_records s1)) (indexed_records s')) = length chunks
       \<and> map (\<lambda>r. map_of (rec_metadata r) k)
             (drop (length (indexed_records s1)) (indexed_records s'))
           = replicate (length chunks) (Some v)"
proof -
  from add_document_new_records [OF assms(1-5)] obtain new where
    new: "indexed_records s' = indexed_records s1 @ new"
    and docs: "map rec_document new = chunks"
    and mds: "map rec_metadata new
               = map (\<lambda>i. dict_merge
                        [(''source'', PStr (dd_filename dd)),
                         (''document_id'', PStr doc_id),
                         (''chunk_index'', PInt (int i)),
                         (''total_chunks'', PInt (int (length chunks))),
                         (''file_type'', PStr (dd_file_type dd))]
                        md) [0 ..< length chunks]"
    by blast
  have d: "drop (length (indexed_records s1)) (indexed_records s') = new"
    using drop_new [OF new] by simp
  from docs have l: "length new = length chunks"
    by (metis length_map)
  have "map (\<lambda>r. map_of (rec_metadata r) k) new
          = map (\<lambda>m. map_of m k) (map rec_metadata new)"
    by (simp add: comp_def)
  also have "\<dots> = replicate (length chunks) (Some v)"
    by (simp add: mds comp_def map_of_dict_merge_present [OF assms(6,7)] map_replicate_const)
  finally show ?thesis
    unfolding d using l by simp
qed

lemma ensure_initialized_keeps:
  assumes "ensure_initialized cfg e s = (r, s1)"
  shows "documents_metadata (rag s1) = documents_metadata (rag s)"
    and "llm_calls s1 = llm_calls s"
    and "document_processor s1 = document_processor s"
    and "vs_initialized (vector_store s) \<Longrightarrow> vector_store s1 = vector_store s"
  using assms
  by (auto simp: ensure_initialized_def initialize_def Let_def vs_initialize_def
      split: if_splits prod.splits sum.splits option.splits)

text \<open>
  C3: when chunking yields no chunk, \<open>add_document\<close> fails with the \<open>ValueError\<close>
  about missing text content; the document registry is what it was before the call,
  and the vector store is what the initialization at the head of the call left, which
  is the vector store before the call when that was initialized already: nothing has
  been written to the index.
\<close>

theorem add_document_no_chunks:
  assumes "ensure_initialized cfg e s = (Inr (), s1)"
    and "process_file e path = Inr dd"
    and "fst (chunk_text (document_processor s1) (dd_text dd) (cfg_chunk_size cfg)
               (cfg_chunk_overlap cfg)) = Inr []"
  shows "fst (add_document cfg e s path md) = Inl no_text_error
       \<and> documents_metadata (rag (snd (add_document cfg e s path md)))
           = documents_metadata (rag s)
       \<and> vector_store (snd (add_document cfg e s path md)) = vector_store s1
       \<and> (vs_initialized (vector_store s) \<longrightarrow>
            vector_store (snd (add_document cfg e s path md)) = vector_store s)"
proof -
  obtain dp where ch: "chunk_text (document_processor s1) (dd_text dd) (cfg_chunk_size cfg)
               (cfg_chunk_overlap cfg) = (Inr [], dp)"
    using assms(3) by (cases "chunk_text (document_processor s1) (dd_text dd) (cfg_chunk_size cfg)
               (cfg_chunk_overlap cfg)") simp
  have "add_document cfg e s path md = (Inl no_text_error, s1\<lparr>document_processor := dp\<rparr>)"
    by (simp add: add_document_def assms(1,2) ch)
  with ensure_initialized_keeps(1,4) [OF assms(1)] show ?thesis
    by simp
qed

lemma demo_process: "process_file demo_env ''policy.txt'' = Inr demo_doc"
  by (simp add: process_file_def demo_env_def demo_doc_def lower_char_def Let_def)

lemma demo_split:
  "split_text_rec 10 2 default_separators ''hello world foo bar''
     = Inr [''hello'', ''world foo'', ''bar'']"
  by code_simp

lemma demo_chunks:
  "chunk_text document_processor_init ''hello world foo bar'' 10 2
     = (Inr [''hello'', ''world foo'', ''bar''],
        \<lparr>dp_text_splitter = Some \<lparr>ts_chunk_size = 10, ts_chunk_overlap = 2,
                                   ts_separators = default_separators\<rparr>\<rparr>)"
  by (simp add: chunk_text_def document_processor_init_def new_text_splitter_def split_text_def
      demo_split)

lemma demo_add_fst:
  "fst (add_document small_settings demo_env demo_system ''policy.txt'' md) = Inr ''doc-1''"
proof -
  have c: "chunk_text (document_processor demo_system) (dd_text demo_doc)
             (cfg_chunk_size small_settings) (cfg_chunk_overlap small_settings)
           = (Inr [''hello'', ''world foo'', ''bar''],
        \<lparr>dp_text_splitter = Some \<lparr>ts_chunk_size = 10, ts_chunk_overlap = 2,
                                   ts_separators = default_separators\<rparr>\<rparr>)"
    using demo_chunks by (simp add: demo_system_def demo_doc_def small_settings_def)
  show ?thesis
    by (simp add: add_document_def demo_ensure demo_process c chunk_loop_closed Let_def)
       (simp add: add_documents_def collection_add_def demo_system_def demo_env_def
        demo_records_def upt_rec str_of_nat.simps digit_char_def)
qed

lemma demo_add:
  "add_document small_settings demo_env demo_system ''policy.txt'' md
     = (Inr ''doc-1'', snd (add_document small_settings demo_env demo_system ''policy.txt'' md))"
  by (simp add: prod_eq_iff demo_add_fst)

lemma demo_chunk_fst:
  "fst (chunk_text (document_processor demo_system) (dd_text demo_doc)
          (cfg_chunk_size small_settings) (cfg_chunk_overlap small_settings))
     = Inr [''hello'', ''world foo'', ''bar'']"
  using demo_chunks by (simp add: demo_system_def demo_doc_def small_settings_def)

lemma demo_index_length: "length (indexed_records demo_system) = 3"
  by (simp add: indexed_records_def demo_system_def demo_records_def)

theorem add_document_chunk_records_witness:
  "wf_system demo_system
   \<and> fst (add_document small_settings demo_env demo_system ''policy.txt''
            [(''status'', PStr ''active'')]) = Inr ''doc-1''
   \<and> map rec_id (drop 3 (indexed_records (snd (add_document small_settings demo_env
          demo_system ''policy.txt'' [(''status'', PStr ''active'')]))))
       = [''doc-1_chunk_0'', ''doc-1_chunk_1'', ''doc-1_chunk_2'']
   \<and> map rec_document (drop 3 (indexed_records (snd (add_document small_settings demo_env
          demo_system ''policy.txt'' [(''status'', PStr ''active'')]))))
       = [''hello'', ''world foo'', ''bar'']
   \<and> map (\<lambda>r. map_of (rec_metadata r) ''chunk_index'')
         (drop 3 (indexed_records (snd (add_document small_settings demo_env
            demo_system ''policy.txt'' [(''status'', PStr ''active'')]))))
       = [Some (PInt 0), Some (PInt 1), Some (PInt 2)]
   \<and> map (\<lambda>r. map_of (rec_metadata r) ''total_chunks'')
         (drop 3 (indexed_records (snd (add_document small_settings demo_env
            demo_system ''policy.txt'' [(''status'', PStr ''active'')]))))
       = [Some (PInt 3), Some (PInt 3), Some (PInt 3)]
   \<and> (case map_of (documents_metadata (rag (snd (add_document small_settings demo_env
            demo_system ''policy.txt'' [(''status'', PStr ''active'')])))) ''doc-1'' of
         None \<Rightarrow> False
       | Some d \<Rightarrow> map_of d ''chunks_count'' = Some (PInt 3))
   \<and> map rec_id (drop 3 (indexed_records (snd (add_document small_settings demo_env
          demo_system ''policy.txt'' [(''chunk_index'', PInt 7)]))))
       = [''doc-1_chunk_0'', ''doc-1_chunk_1'', ''doc-1_chunk_2'']
   \<and> map (\<lambda>r. map_of (rec_metadata r) ''total_chunks'')
         (drop 3 (indexed_records (snd (add_document small_settings demo_env
            demo_system ''policy.txt'' [(''chunk_index'', PInt 7)]))))
       = [Some (PInt 3), Some (PInt 3), Some (PInt 3)]
   \<and> (case map_of (documents_metadata (rag (snd (add_document small_settings demo_env
            demo_system ''policy.txt'' [(''chunk_index'', PInt 7)])))) ''doc-1'' of
         None \<Rightarrow> False
       | Some d \<Rightarrow> map_of d ''chunks_count'' = Some (PInt 3))"
proof -
  have k: "map_of [(''status'', PStr ''active'')] ''chunk_index'' = None"
    "map_of [(''status'', PStr ''active'')] ''total_chunks'' = None"
    "map_of [(''status'', PStr ''active'')] ''chunks_count'' = None"
    by simp_all
  have k7: "map_of [(''chunk_index'', PInt 7)] ''total_chunks'' = None"
    "map_of [(''chunk_index'', PInt 7)] ''chunks_count'' = None"
    by simp_all
  have u: "[0 ..< length [''hello'', ''world foo'', ''bar'']] = [0, 1, 2]"
    by (simp add: upt_rec)
  note plain = add_document_chunk_records [OF demo_wf demo_ensure demo_process demo_chunk_fst
      demo_add, of "[(''status'', PStr ''active'')]"]
  note seven = add_document_chunk_records [OF demo_wf demo_ensure demo_process demo_chunk_fst
      demo_add, of "[(''chunk_index'', PInt 7)]"]
  show ?thesis
    using demo_wf k k7 plain seven
    unfolding u demo_index_length
    by (auto simp: demo_add_fst str_of_nat.simps digit_char_def split: option.splits)
qed

text \<open>
  C4 as stated fails: with the caller metadata \<open>{"chunk_index": 7}\<close> the ingestion of
  the sample file succeeds with three chunks, and every stored chunk has
  \<open>chunk_index = 7\<close>.
\<close>

theorem add_document_chunk_index_counterexample:
  "fst (add_document small_settings demo_env demo_system ''policy.txt''
          [(''chunk_index'', PInt 7)]) = Inr ''doc-1''
   \<and> map (\<lambda>r. map_of (rec_metadata r) ''chunk_index'')
         (drop 3 (indexed_records (snd (add_document small_settings demo_env
            demo_system ''policy.txt'' [(''chunk_index'', PInt 7)]))))
       = [Some (PInt 7), Some (PInt 7), Some (PInt 7)]"
proof -
  from add_document_new_records [OF demo_wf demo_ensure demo_process demo_chunk_fst demo_add]
  obtain new where
    new: "indexed_records (snd (add_document small_settings demo_env demo_system ''policy.txt''
             [(''chunk_index'', PInt 7)])) = indexed_records demo_system @ new"
    and mds: "map rec_metadata new
               = map (\<lambda>i. dict_merge
                        [(''source'', PStr (dd_filename demo_doc)),
                         (''document_id'', PStr ''doc-1''),
                         (''chunk_index'', PInt (int i)),
                         (''total_chunks'', PInt (int (length [''hello'', ''world foo'', ''bar'']))),
                         (''file_type'', PStr (dd_file_type demo_doc))]
                        [(''chunk_index'', PInt 7)]) [0 ..< length [''hello'', ''world foo'', ''bar'']]"
    by blast
  have d: "drop 3 (indexed_records (snd (add_document small_settings demo_env demo_system
             ''policy.txt'' [(''chunk_index'', PInt 7)]))) = new"
    using drop_new [OF new] by (simp add: demo_index_length)
  have "map (\<lambda>r. map_of (rec_metadata r) ''chunk_index'') new
          = map (\<lambda>m. map_of m ''chunk_index'') (map rec_metadata new)"
    by (simp add: comp_def)
  also have "\<dots> = [Some (PInt 7), Some (PInt 7), Some (PInt 7)]"
    unfolding mds by (simp add: dict_merge_def upt_rec)
  finally show ?thesis
    unfolding d by (simp add: demo_add_fst)
qed

theorem caller_metadata_overrides_witness:
  "wf_system demo_system
   \<and> fst (add_document small_settings demo_env demo_system ''policy.txt''
            [(''document_id'', PStr ''mine''), (''status'', PStr ''active'')]) = Inr ''doc-1''
   \<and> map (\<lambda>r. map_of (rec_metadata r) ''document_id'')
         (drop 3 (indexed_records (snd (add_document small_settings demo_env demo_system
            ''policy.txt'' [(''document_id'', PStr ''mine''), (''status'', PStr ''active'')]))))
       = [Some (PStr ''mine''), Some (PStr ''mine''), Some (PStr ''mine'')]"
proof -
  have k: "distinct (map fst [(''document_id'', PStr ''mine''), (''status'', PStr ''active'')])"
    "map_of [(''document_id'', PStr ''mine''), (''status'', PStr ''active'')] ''document_id''
       = Some (PStr ''mine'')"
    by simp_all
  show ?thesis
    using demo_wf
      caller_metadata_overrides [OF demo_wf demo_ensure demo_process demo_chunk_fst
        demo_add k]
    unfolding demo_index_length
    by (simp add: demo_add_fst)
qed

lemma blank_process:
  "process_file blank_env ''policy.txt''
     = Inr \<lparr>dd_text = [], dd_filename = ''policy.txt'', dd_file_type = ''.txt'',
            dd_size = 0, dd_pages = None\<rparr>"
  by (simp add: process_file_def blank_env_def demo_env_def lower_char_def Let_def)

theorem add_document_no_chunks_witness:
  "fst (add_document demo_settings blank_env demo_system ''policy.txt'' [])
     = Inl (ValueError ''No text content could be extracted from the document'')
   \<and> documents_metadata (rag (snd (add_document demo_settings blank_env demo_system
          ''policy.txt'' [])))
       = [(''d'', [(''id'', PStr ''d''), (''chunks_count'', PInt 3)])]
   \<and> indexed_records (snd (add_document demo_settings blank_env demo_system ''policy.txt'' []))
       = demo_records"
proof -
  have c: "fst (chunk_text (document_processor demo_system)
                  (dd_text \<lparr>dd_text = [], dd_filename = ''policy.txt'', dd_file_type = ''.txt'',
                            dd_size = 0, dd_pages = None\<rparr>)
                  (cfg_chunk_size demo_settings) (cfg_chunk_overlap demo_settings)) = Inr []"
    using chunk_text_no_chunk [OF init_cached, of 200 1000 "[]"]
    by (simp add: demo_system_def demo_settings_def default_settings_def)
  have i: "vs_initialized (vector_store demo_system)"
    by (simp add: demo_system_def)
  show ?thesis
    using i add_document_no_chunks [OF demo_ensure blank_process c, of "[]"]
    by (simp add: no_text_error_def indexed_records_def) (simp add: demo_system_def)
qed

section \<open>Deletion\<close>






section \<open>The invariant of the services\<close>

lemma wf_system_init: "wf_system system_init"
  by (simp add: wf_system_def system_init_def vector_store_init_def)

lemma vs_initialize_wf:
  assumes "vs_initialize e vs p n = (r, vs')"
    and "\<not> vs_initialized vs \<or> vs_collection vs \<noteq> None"
  shows "\<not> vs_initialized vs' \<or> vs_collection vs' \<noteq> None"
    and "r = Inr () \<Longrightarrow> vs_initialized vs'"
  using assms
  by (auto simp: vs_initialize_def Let_def split: option.splits sum.splits if_splits)

lemma ensure_initialized_wf:
  assumes "ensure_initialized cfg e s = (r, s1)" and "wf_system s"
  shows "wf_system s1"
proof (cases "rs_initialized (rag s)")
  case True
  with assms show ?thesis
    by (simp add: ensure_initialized_def)
next
  case False
  obtain x vs where vi: "vs_initialize e (vector_store s) (cfg_chroma_db_path cfg)
                           (cfg_collection_name cfg) = (x, vs)"
    by (cases "vs_initialize e (vector_store s) (cfg_chroma_db_path cfg) (cfg_collection_name cfg)")
  from assms(2) have v: "\<not> vs_initialized (vector_store s) \<or> vs_collection (vector_store s) \<noteq> None"
    by (simp add: wf_system_def)
  from vs_initialize_wf [OF vi v] assms(1) False vi show ?thesis
    by (auto simp: ensure_initialized_def initialize_def wf_system_def Let_def
        split: sum.splits)
qed

lemma add_documents_wf:
  assumes "add_documents e vs d v m i = (r, vs')"
  shows "vs_initialized vs' = vs_initialized vs"
    and "vs_collection vs' = None \<longleftrightarrow> vs_collection vs = None"
  using assms
  by (auto simp: add_documents_def Let_def split: sum.splits if_splits)

lemma delete_documents_wf:
  assumes "delete_documents e vs i = (r, vs')"
  shows "vs_initialized vs' = vs_initialized vs"
    and "vs_collection vs' = None \<longleftrightarrow> vs_collection vs = None"
  using assms
  by (auto simp: delete_documents_def Let_def split: sum.splits if_splits)

lemma similarity_search_wf:
  assumes "similarity_search e vs q k f = (r, vs')"
  shows "vs' = vs"
  using assms similarity_search_state [of e vs q k f] by simp

lemma add_document_wf:
  assumes "wf_system s"
  shows "wf_system (snd (add_document cfg e s path md))"
proof -
  obtain r s1 where en: "ensure_initialized cfg e s = (r, s1)"
    by (cases "ensure_initialized cfg e s")
  from ensure_initialized_wf [OF en assms] have w: "wf_system s1" .
  show ?thesis
    unfolding add_document_def en using w
    by (auto simp: wf_system_def Let_def split: prod.splits sum.splits if_splits
        dest: add_documents_wf)
qed

lemma query_wf:
  assumes "wf_system s"
  shows "wf_system (snd (query cfg e s question top_k))"
proof -
  obtain r s1 where en: "ensure_initialized cfg e s = (r, s1)"
    by (cases "ensure_initialized cfg e s")
  from ensure_initialized_wf [OF en assms] have w: "wf_system s1" .
  show ?thesis
    unfolding query_def en using w
    by (auto simp: wf_system_def Let_def split: prod.splits sum.splits if_splits
        dest!: similarity_search_wf)
qed

lemma delete_document_wf:
  assumes "wf_system s"
  shows "wf_system (snd (delete_document cfg e s document_id))"
proof -
  obtain r s1 where en: "ensure_initialized cfg e s = (r, s1)"
    by (cases "ensure_initialized cfg e s")
  from ensure_initialized_wf [OF en assms] have w: "wf_system s1" .
  show ?thesis
    unfolding delete_document_def en using w
    by (auto simp: wf_system_def Let_def split: prod.splits sum.splits if_splits option.splits
        dest: delete_documents_wf)
qed

lemma empty_index_search:
  assumes "vs_initialized vs" and "vs_collection vs = Some c" and "coll_records c = []"
    and "chroma_fault e OpQuery = None" and "0 < top_k"
  shows "fst (similarity_search e vs q top_k None) = Inr []"
  using assms
  by (simp add: similarity_search_def collection_query_def format_results_def)

end
